theory Spec2Isabelle
  imports Complex_Main
begin

section \<open>Numbers, vectors and matrices\<close>

text \<open>
  The filter of \<^verbatim>\<open>src/ukf.cpp\<close> computes with C++ \<^verbatim>\<open>double\<close> values held in Eigen's
  \<^verbatim>\<open>VectorXd\<close> and \<^verbatim>\<open>MatrixXd\<close>. The embedding reads a \<^verbatim>\<open>double\<close> (and the three
  \<^verbatim>\<open>float\<close> temporaries of \<^verbatim>\<open>ProcessMeasurement\<close>) as a real number and an arithmetic
  operation as the exact one, which is what the program computes up to a rounding error that
  stays small; infinities and NaN are outside the model. In two places the rounding decides
  what the program does, and there the embedding does not pretend otherwise:

  \<^item> the normalization loops subtract or add \<open>2\<pi>\<close> again and again: on a large angle the
    rounding errors add up, and on a very large one the subtraction no longer changes the
    \<^verbatim>\<open>double\<close> at all, so that the loop never ends (section "Angle normalization");

  \<^item> the Cholesky factorisation of the library decides by the sign of a pivot where it
    stops, and a pivot that is zero in exact arithmetic can have either sign in \<^verbatim>\<open>double\<close>s;
    the factorisation is a parameter of the prediction (section "Prediction").

  A vector is the list of its coefficients, a matrix the list of its rows. The two
  sigma-point matrices are kept as the list of their columns, since the code only ever reads
  and writes them one column (one sigma point) at a time.

  Identifiers of the source end in an underscore (\<^verbatim>\<open>x_\<close>, \<^verbatim>\<open>P_\<close>, \<^verbatim>\<open>weights_\<close>), which is not
  a legal name here: the underscore is dropped, and \<^verbatim>\<open>x_\<close>, \<^verbatim>\<open>P_\<close> become \<open>x_vec\<close>, \<open>P_mat\<close>.
\<close>

type_synonym vec = "real list"
type_synonym mat = "real list list"

definition vec_add :: "vec \<Rightarrow> vec \<Rightarrow> vec" where
  "vec_add a b = map2 (+) a b"

definition vec_sub :: "vec \<Rightarrow> vec \<Rightarrow> vec" where
  "vec_sub a b = map2 (-) a b"

definition scal_vec :: "real \<Rightarrow> vec \<Rightarrow> vec" where
  "scal_vec c v = map ((*) c) v"

definition dot :: "vec \<Rightarrow> vec \<Rightarrow> real" where
  "dot a b = sum_list (map2 (*) a b)"

definition outer :: "vec \<Rightarrow> vec \<Rightarrow> mat" where
  "outer a b = map (\<lambda>c. scal_vec c b) a"

definition mat_add :: "mat \<Rightarrow> mat \<Rightarrow> mat" where
  "mat_add A B = map2 vec_add A B"

definition mat_sub :: "mat \<Rightarrow> mat \<Rightarrow> mat" where
  "mat_sub A B = map2 vec_sub A B"

definition scal_mat :: "real \<Rightarrow> mat \<Rightarrow> mat" where
  "scal_mat c A = map (scal_vec c) A"

definition ncols :: "mat \<Rightarrow> nat" where
  "ncols A = (case A of [] \<Rightarrow> 0 | r # _ \<Rightarrow> length r)"

definition col :: "mat \<Rightarrow> nat \<Rightarrow> vec" where
  "col A j = map (\<lambda>r. r ! j) A"

definition transpose_mat :: "mat \<Rightarrow> mat" where
  "transpose_mat A = map (col A) [0..<ncols A]"

definition mat_vec :: "mat \<Rightarrow> vec \<Rightarrow> vec" where
  "mat_vec A v = map (\<lambda>r. dot r v) A"

definition mat_mul :: "mat \<Rightarrow> mat \<Rightarrow> mat" where
  "mat_mul A B = map (\<lambda>r. map (\<lambda>j. dot r (col B j)) [0..<ncols B]) A"

definition identity_mat :: "nat \<Rightarrow> mat" where
  "identity_mat n = map (\<lambda>i. map (\<lambda>j. if i = j then 1 else 0) [0..<n]) [0..<n]"

definition zero_vec :: "nat \<Rightarrow> vec" where
  "zero_vec n = replicate n 0"

definition zero_mat :: "nat \<Rightarrow> nat \<Rightarrow> mat" where
  "zero_mat r c = replicate r (replicate c 0)"

text \<open>A matrix of \<open>r\<close> rows and \<open>c\<close> columns; a list of \<open>n\<close> sigma points of dimension \<open>d\<close>
  has the same shape, \<open>dims n d\<close>.\<close>

definition dims :: "nat \<Rightarrow> nat \<Rightarrow> mat \<Rightarrow> bool" where
  "dims r c A = (length A = r \<and> list_all (\<lambda>row. length row = c) A)"

section \<open>Angle normalization\<close>

text \<open>
  The two loops that the source writes out at each of its four normalization sites:
  \<^verbatim>\<open>while (a > M_PI) a -= 2.*M_PI;  while (a < -M_PI) a += 2.*M_PI;\<close>

  One pass \<^verbatim>\<open>a -= 2.*M_PI\<close> on a \<^verbatim>\<open>double\<close> \<open>a\<close>, by the size of \<open>a\<close>:

  \<^item> up to \<open>exact_limit = 1000\<close> it is read as the exact subtraction, like every other
    operation of the model: the loop then runs at most 160 times and the rounding errors
    of its passes add up to less than \<open>10\<^sup>-\<^sup>1\<^sup>0\<close>;

  \<^item> beyond \<open>absorb_limit = 2\<^sup>5\<^sup>6\<close> two neighbouring \<^verbatim>\<open>double\<close>s are 16 or more apart, \<open>a - 2\<pi>\<close>
    rounds back to \<open>a\<close>, and the pass leaves \<open>a\<close> as it is;

  \<^item> in between, neighbouring \<^verbatim>\<open>double\<close>s are at most 8 apart and the result is \<open>a - 2\<pi>\<close>
    rounded to one of them: some number from \<open>a - 8\<close> to \<open>a - 4\<close>. Which one is not modelled:
    \<open>rounded_sub\<close> is a function of which only this enclosure is known. Over the many
    passes of this range the errors add up, and nothing is claimed about the value that
    the loop reaches, except that it reaches one.

  The pass \<^verbatim>\<open>a += 2.*M_PI\<close> is the mirror image. A loop that never ends returns no value:
  \<open>None\<close>.
\<close>

definition exact_limit :: real where
  "exact_limit = 1000"

definition absorb_limit :: real where
  "absorb_limit = 2 ^ 56"

definition rounded_sub :: "real \<Rightarrow> real" where
  "rounded_sub = (SOME f. \<forall>a. a - 8 \<le> f a \<and> f a \<le> a - 4)"

definition rounded_add :: "real \<Rightarrow> real" where
  "rounded_add = (SOME f. \<forall>a. a + 4 \<le> f a \<and> f a \<le> a + 8)"

definition sub_2pi :: "real \<Rightarrow> real" where
  "sub_2pi a =
     (if \<bar>a\<bar> \<le> exact_limit then a - 2 * pi
      else if \<bar>a\<bar> \<le> absorb_limit then rounded_sub a
      else a)"

definition add_2pi :: "real \<Rightarrow> real" where
  "add_2pi a =
     (if \<bar>a\<bar> \<le> exact_limit then a + 2 * pi
      else if \<bar>a\<bar> \<le> absorb_limit then rounded_add a
      else a)"

partial_function (option) norm_down :: "real \<Rightarrow> real option" where
  "norm_down a = (if a > pi then norm_down (sub_2pi a) else Some a)"

partial_function (option) norm_up :: "real \<Rightarrow> real option" where
  "norm_up a = (if a < - pi then norm_up (add_2pi a) else Some a)"

definition angle_normalization :: "real \<Rightarrow> real option" where
  "angle_normalization a = (case norm_down a of None \<Rightarrow> None | Some b \<Rightarrow> norm_up b)"

text \<open>
  The angle that the normalization is meant to compute, in closed form and without a loop:
  the input shifted down by the least multiple of \<open>2\<pi>\<close> that brings it to \<open>\<pi>\<close> or below, or up
  by the least multiple that brings it to \<open>-\<pi>\<close> or above.
\<close>

definition wrap_angle :: "real \<Rightarrow> real" where
  "wrap_angle a =
     (if a > pi then a - 2 * pi * of_int \<lceil>(a - pi) / (2 * pi)\<rceil>
      else if a < - pi then a + 2 * pi * of_int \<lceil>(- a - pi) / (2 * pi)\<rceil>
      else a)"

section \<open>The filter state and its constructor\<close>

datatype SensorType = LASER | RADAR

record MeasurementPackage =
  timestamp :: int
  sensor_type :: SensorType
  raw_measurements :: vec

record UKF =
  is_initialized :: bool
  use_laser :: bool
  use_radar :: bool
  x_vec :: vec
  P_mat :: mat
  Xsig_pred :: mat
  time_us :: int
  std_a :: real
  std_yawdd :: real
  std_laspx :: real
  std_laspy :: real
  std_radr :: real
  std_radphi :: real
  std_radrd :: real
  weights :: vec
  n_x :: nat
  n_aug :: nat
  lambda :: real
  NIS_radar :: real
  NIS_laser :: real

text \<open>
  The weight loop of the constructor:
  \<^verbatim>\<open>weights_(0) = lambda_/(lambda_ + n_aug_);
  for (int i=1; i< 2 * n_aug_ + 1; i++) weights_(i) = 0.5/(n_aug_ + lambda_);\<close>
\<close>

definition init_weights :: "nat \<Rightarrow> real \<Rightarrow> vec" where
  "init_weights n l =
     fold (\<lambda>i w. w[i := 0.5 / (real n + l)]) [1..<2 * n + 1]
       ((zero_vec (2 * n + 1))[0 := l / (l + real n)])"

text \<open>
  \<^verbatim>\<open>UKF::UKF()\<close>. The header \<^verbatim>\<open>ukf.h\<close> is not part of the sources at hand: \<open>lambda\<close> is
  taken to be a \<^verbatim>\<open>double\<close> (as the weights of the specification require), the dimensions
  are integers, the time stamp a 64-bit integer read here as an unbounded one.

  The constructor allocates \<^verbatim>\<open>Xsig_pred_\<close> (5 rows, 15 columns) and writes nothing to it:
  \<open>unset_Xsig_pred\<close> is some matrix of that shape, of which nothing else is known. The first
  call of \<^verbatim>\<open>Prediction\<close> overwrites all of it.
\<close>

definition unset_Xsig_pred :: mat where
  "unset_Xsig_pred = (SOME X. dims (2 * 7 + 1) 5 X)"

definition UKF_init :: UKF where
  "UKF_init =
     \<lparr> is_initialized = False,
       use_laser = True,
       use_radar = True,
       x_vec = [1, 1, 9, 0, 0],
       P_mat = [[0.5, 0, 0, 0, 0],
                [0, 0.5, 0, 0, 0.5],
                [0, 0, 0.5, 0, 0],
                [0, 0, 0, 0.5, 0],
                [0, 0.5, 0, 0, 0.5]],
       Xsig_pred = unset_Xsig_pred,
       time_us = 0,
       std_a = 0.5,
       std_yawdd = 2,
       std_laspx = 0.15,
       std_laspy = 0.15,
       std_radr = 0.3,
       std_radphi = 0.03,
       std_radrd = 0.3,
       weights = init_weights 7 (3 - 7),
       n_x = 5,
       n_aug = 7,
       lambda = 3 - 7,
       NIS_radar = 0,
       NIS_laser = 0 \<rparr>"

section \<open>Library functions\<close>

text \<open>
  Square root, sine and cosine are those of the reals. Three functions that the code calls
  are library code outside \<^verbatim>\<open>src/\<close>; they are given here as the specification names them.

  Modelled from the spec: \<^verbatim>\<open>atan2\<close> of the C library, the bearing \<open>atan2(py, px)\<close> of
  section 4.5, as the angle in \<open>(-\<pi>, \<pi>]\<close> of the point \<open>(x, y)\<close>; at the origin it is \<open>0\<close>.
\<close>

definition atan2 :: "real \<Rightarrow> real \<Rightarrow> real" where
  "atan2 y x =
     (if 0 < x then arctan (y / x)
      else if x < 0 then (if 0 \<le> y then arctan (y / x) + pi else arctan (y / x) - pi)
      else if 0 < y then pi / 2
      else if y < 0 then - (pi / 2)
      else 0)"

text \<open>
  Modelled from the spec: Eigen's \<^verbatim>\<open>MatrixXd::inverse()\<close>, the \<open>S\<^sup>-\<^sup>1\<close> of sections 4.4 and
  4.5, for the two sizes the filter inverts (2 by 2 and 3 by 3), by cofactors. A singular
  matrix has no inverse: the result \<open>None\<close> stands for the non-finite coefficients that the
  library would produce ("non-invertible innovation covariance", section 7).
\<close>

definition inverse_mat :: "mat \<Rightarrow> mat option" where
  "inverse_mat M =
     (if dims 2 2 M then
        (let a = M ! 0 ! 0; b = M ! 0 ! 1;
             c = M ! 1 ! 0; d = M ! 1 ! 1;
             det = a * d - b * c
         in if det = 0 then None
            else Some [[d / det, - b / det],
                       [- c / det, a / det]])
      else if dims 3 3 M then
        (let a = M ! 0 ! 0; b = M ! 0 ! 1; c = M ! 0 ! 2;
             d = M ! 1 ! 0; e = M ! 1 ! 1; f = M ! 1 ! 2;
             g = M ! 2 ! 0; h = M ! 2 ! 1; i = M ! 2 ! 2;
             det = a * (e * i - f * h) - b * (d * i - f * g) + c * (d * h - e * g)
         in if det = 0 then None
            else Some [[(e * i - f * h) / det, (c * h - b * i) / det, (b * f - c * e) / det],
                       [(f * g - d * i) / det, (a * i - c * g) / det, (c * d - a * f) / det],
                       [(d * h - e * g) / det, (b * g - a * h) / det, (a * e - b * d) / det]])
      else None)"

text \<open>
  Modelled from the spec: Eigen's \<^verbatim>\<open>llt().matrixL()\<close>, "the lower-triangular Cholesky
  factor L" of section 4.2, computed column by column from the lower triangle of its
  argument: the pivot of column \<open>k\<close> is \<open>A\<^sub>k\<^sub>k - \<Sum>\<^sub>j\<^sub><\<^sub>k L\<^sub>k\<^sub>j\<^sup>2\<close>, its square root the diagonal
  coefficient, and the coefficients below it are \<open>(A\<^sub>i\<^sub>k - \<Sum>\<^sub>j\<^sub><\<^sub>k L\<^sub>i\<^sub>j L\<^sub>k\<^sub>j) / L\<^sub>k\<^sub>k\<close>. The
  factorisation fails at the first pivot that is not positive. \<^verbatim>\<open>Prediction\<close> never asks
  whether it failed: it goes on with the lower triangle as the library leaves it, the
  columns before the failing one factored and the others untouched.

  \<open>llt\<close> computes in exact arithmetic. It is what the library computes, up to rounding, on a
  matrix none of whose pivots has a sign that turns on rounding: every pivot is either well
  away from zero, or it is zero because each of its terms is zero. On other matrices (the
  covariance that the constructor sets is one: its fifth pivot is \<open>0.5 - 0.5\<close> in exact
  arithmetic and about \<open>10\<^sup>-\<^sup>1\<^sup>6\<close> in \<^verbatim>\<open>double\<close>s) the library may go on where \<open>llt\<close> stops. For
  this reason \<open>Prediction\<close> below does not call \<open>llt\<close>: it takes the factorisation as a
  parameter, and \<open>llt\<close> is put in its place only on matrices of the first kind.
\<close>

definition llt_column :: "nat \<Rightarrow> real \<Rightarrow> mat \<Rightarrow> mat" where
  "llt_column k x M =
     map (\<lambda>i. if i = k then (M ! i)[k := x]
              else if k < i then
                (M ! i)[k := (M ! i ! k - sum_list (map (\<lambda>j. M ! i ! j * M ! k ! j) [0..<k])) / x]
              else M ! i)
         [0..<length M]"

fun llt_unblocked :: "nat list \<Rightarrow> mat \<Rightarrow> mat" where
  "llt_unblocked [] M = M"
| "llt_unblocked (k # ks) M =
     (let x = M ! k ! k - sum_list (map (\<lambda>j. M ! k ! j * M ! k ! j) [0..<k])
      in if x \<le> 0 then M else llt_unblocked ks (llt_column k (sqrt x) M))"

definition matrixL :: "mat \<Rightarrow> mat" where
  "matrixL M =
     map (\<lambda>i. map (\<lambda>j. if j \<le> i then M ! i ! j else 0) [0..<length M]) [0..<length M]"

definition llt :: "mat \<Rightarrow> mat" where
  "llt A = matrixL (llt_unblocked [0..<length A] A)"

text \<open>
  A division of two \<^verbatim>\<open>double\<close>s written in the source, with the zero divisor as an error
  value: the two guards of the code ("avoid division by zero") are there to keep it away.
\<close>

definition checked_div :: "real \<Rightarrow> real \<Rightarrow> real option" where
  "checked_div a b = (if b = 0 then None else Some (a / b))"

section \<open>Prediction\<close>

text \<open>The augmented mean and covariance (\<^verbatim>\<open>x_aug\<close>, \<^verbatim>\<open>P_aug\<close>) of \<^verbatim>\<open>UKF::Prediction\<close>.\<close>

definition augmented_mean :: "UKF \<Rightarrow> vec" where
  "augmented_mean st = map (\<lambda>i. if i < 5 then x_vec st ! i else 0) [0..<7]"

definition augmented_covariance :: "UKF \<Rightarrow> mat" where
  "augmented_covariance st =
     map (\<lambda>i. map (\<lambda>j. if i < 5 \<and> j < 5 then P_mat st ! i ! j
                       else if i = 5 \<and> j = 5 then std_a st * std_a st
                       else if i = 6 \<and> j = 6 then std_yawdd st * std_yawdd st
                       else 0) [0..<7]) [0..<7]"

text \<open>
  The augmented sigma points, as the list of the columns of \<^verbatim>\<open>Xsig_aug\<close>: column 0, then
  the columns \<open>i+1\<close> and then the columns \<open>i+1+n_aug\<close> for \<open>i = 0, \<dots>, n_aug-1\<close>.
\<close>

definition augmented_sigma_points :: "nat \<Rightarrow> real \<Rightarrow> vec \<Rightarrow> mat \<Rightarrow> mat" where
  "augmented_sigma_points n l x_aug L =
     (let sqrt_lambda = sqrt (l + real n)
      in x_aug
         # map (\<lambda>i. vec_add x_aug (scal_vec sqrt_lambda (col L i))) [0..<n]
         @ map (\<lambda>i. vec_sub x_aug (scal_vec sqrt_lambda (col L i))) [0..<n])"

text \<open>The process model applied to one augmented sigma point (one pass of the second loop).\<close>

definition predict_sigma_point :: "real \<Rightarrow> vec \<Rightarrow> vec option" where
  "predict_sigma_point delta_t c =
     (let p_x = c ! 0; p_y = c ! 1; v = c ! 2; yaw = c ! 3; yawd = c ! 4;
          nu_a = c ! 5; nu_yawdd = c ! 6
      in case (if \<bar>yawd\<bar> > 0.001 then
                 (case checked_div v yawd of
                    None \<Rightarrow> None
                  | Some q \<Rightarrow>
                      Some (p_x + q * (sin (yaw + yawd * delta_t) - sin yaw),
                            p_y + q * (cos yaw - cos (yaw + yawd * delta_t))))
               else Some (p_x + v * delta_t * cos yaw, p_y + v * delta_t * sin yaw)) of
           None \<Rightarrow> None
         | Some (px_p, py_p) \<Rightarrow>
             Some [px_p + 0.5 * nu_a * delta_t * delta_t * cos yaw,
                   py_p + 0.5 * nu_a * delta_t * delta_t * sin yaw,
                   v + nu_a * delta_t,
                   yaw + yawd * delta_t + 0.5 * nu_yawdd * delta_t * delta_t,
                   yawd + nu_yawdd * delta_t])"

text \<open>The two accumulation loops over the predicted sigma points.\<close>

definition weighted_mean :: "vec \<Rightarrow> mat \<Rightarrow> nat \<Rightarrow> vec \<Rightarrow> vec" where
  "weighted_mean w X n z0 =
     fold (\<lambda>i x. vec_add x (scal_vec (w ! i) (X ! i))) [0..<n] z0"

text \<open>
  A difference of two vectors with its coefficient \<open>k\<close> (a heading or a bearing) normalized.
  It has no value where the normalization loops do not end.
\<close>

definition normalized_diff :: "nat \<Rightarrow> vec \<Rightarrow> vec \<Rightarrow> vec option" where
  "normalized_diff k a b =
     (let d = vec_sub a b
      in case angle_normalization (d ! k) of
           None \<Rightarrow> None
         | Some r \<Rightarrow> Some (d[k := r]))"

text \<open>
  The covariance loop, over the indices of the sigma points that are still to come: each
  pass takes the difference to the mean, normalizes its heading and adds the weighted outer
  product to the matrix accumulated so far.
\<close>

primrec predicted_covariance :: "vec \<Rightarrow> mat \<Rightarrow> vec \<Rightarrow> nat list \<Rightarrow> mat \<Rightarrow> mat option" where
  "predicted_covariance w X x [] P = Some P"
| "predicted_covariance w X x (i # is) P =
     (case normalized_diff 3 (X ! i) x of
        None \<Rightarrow> None
      | Some x_diff \<Rightarrow>
          predicted_covariance w X x is (mat_add P (outer (scal_vec (w ! i) x_diff) x_diff)))"

text \<open>
  \<^verbatim>\<open>UKF::Prediction\<close>. Its first argument \<open>factor\<close> stands for the library call
  \<^verbatim>\<open>P_aug.llt().matrixL()\<close>: the matrix \<open>L\<close> that the library returns for \<open>P_aug\<close>. What is proved
  of \<open>Prediction factor\<close> for every \<open>factor\<close> holds of the program whatever the library
  computes.
\<close>

definition Prediction :: "(mat \<Rightarrow> mat) \<Rightarrow> real \<Rightarrow> UKF \<Rightarrow> UKF option" where
  "Prediction factor delta_t st =
     (let x_aug = augmented_mean st;
          P_aug = augmented_covariance st;
          L = factor P_aug;
          Xsig_aug = augmented_sigma_points (n_aug st) (lambda st) x_aug L
      in case those (map (\<lambda>i. predict_sigma_point delta_t (Xsig_aug ! i))
                         [0..<2 * n_aug st + 1]) of
           None \<Rightarrow> None
         | Some Xsig \<Rightarrow>
             (let x = weighted_mean (weights st) Xsig (2 * n_aug st + 1)
                        (map (\<lambda>_. 0) (x_vec st))
              in case predicted_covariance (weights st) Xsig x [0..<2 * n_aug st + 1]
                        (map (map (\<lambda>_. 0)) (P_mat st)) of
                   None \<Rightarrow> None
                 | Some P \<Rightarrow> Some (st\<lparr> Xsig_pred := Xsig, x_vec := x, P_mat := P \<rparr>)))"

section \<open>Lidar update\<close>

text \<open>
  \<^verbatim>\<open>UKF::UpdateLidar\<close>. Eigen checks the sizes of the operands of \<^verbatim>\<open>raw_measurements_ - z_pred\<close>:
  a measurement that has not two components is the error \<open>None\<close>, as is a singular \<open>S\<close>.
  The product \<^verbatim>\<open>y.transpose() * Si * y\<close> is a 1 by 1 matrix, read as a number.
\<close>

definition H_laser :: mat where
  "H_laser = [[1, 0, 0, 0, 0],
              [0, 1, 0, 0, 0]]"

definition quadratic_form :: "vec \<Rightarrow> mat \<Rightarrow> real" where
  "quadratic_form y Si = hd (mat_vec (mat_mul [y] Si) y)"

definition UpdateLidar :: "UKF \<Rightarrow> MeasurementPackage \<Rightarrow> UKF option" where
  "UpdateLidar st meas_package =
     (let n_z = 2;
          R = [[std_laspx st * std_laspx st, 0],
               [0, std_laspy st * std_laspy st]];
          z_pred = mat_vec H_laser (x_vec st)
      in if length (raw_measurements meas_package) \<noteq> n_z then None
         else
           (let y = vec_sub (raw_measurements meas_package) z_pred;
                Ht = transpose_mat H_laser;
                S = mat_add (mat_mul (mat_mul H_laser (P_mat st)) Ht) R
            in case inverse_mat S of
                 None \<Rightarrow> None
               | Some Si \<Rightarrow>
                   (let K = mat_mul (mat_mul (P_mat st) Ht) Si;
                        I = identity_mat (n_x st)
                    in Some (st\<lparr> x_vec := vec_add (x_vec st) (mat_vec K y),
                                 P_mat := mat_mul (mat_sub I (mat_mul K H_laser)) (P_mat st),
                                 NIS_laser := quadratic_form y Si \<rparr>))))"

section \<open>Radar update\<close>

text \<open>The measurement model applied to one predicted sigma point (one pass of the first loop).\<close>

definition radar_measurement_point :: "vec \<Rightarrow> vec option" where
  "radar_measurement_point c =
     (let p_x = c ! 0; p_y = c ! 1; v = c ! 2; yaw = c ! 3;
          v1 = cos yaw * v;
          v2 = sin yaw * v;
          r0 = sqrt (p_x * p_x + p_y * p_y);
          r = (if \<bar>r0\<bar> < 0.001 then 0.001 else r0)
      in case checked_div (p_x * v1 + p_y * v2) r of
           None \<Rightarrow> None
         | Some r_dot \<Rightarrow> Some [r, atan2 p_y p_x, r_dot])"

definition measurement_covariance :: "vec \<Rightarrow> mat \<Rightarrow> nat \<Rightarrow> mat \<Rightarrow> mat" where
  "measurement_covariance w z_diff n S0 =
     fold (\<lambda>i S. mat_add S (outer (scal_vec (w ! i) (z_diff ! i)) (z_diff ! i))) [0..<n] S0"

text \<open>
  The cross-correlation loop, over the indices that are still to come; the state difference
  has its heading normalized in each pass.
\<close>

primrec cross_correlation :: "vec \<Rightarrow> mat \<Rightarrow> vec \<Rightarrow> mat \<Rightarrow> nat list \<Rightarrow> mat \<Rightarrow> mat option" where
  "cross_correlation w X x z_diff [] Tc = Some Tc"
| "cross_correlation w X x z_diff (i # is) Tc =
     (case normalized_diff 3 (X ! i) x of
        None \<Rightarrow> None
      | Some x_diff \<Rightarrow>
          cross_correlation w X x z_diff is
            (mat_add Tc (outer (scal_vec (w ! i) x_diff) (z_diff ! i))))"

text \<open>
  \<^verbatim>\<open>UKF::UpdateRadar\<close>. It returns no value where a normalization loop does not end, where the
  measurement has not three components (Eigen checks the sizes of \<^verbatim>\<open>raw_measurements_ - z_pred\<close>)
  and where \<open>S\<close> is singular.
\<close>

definition UpdateRadar :: "UKF \<Rightarrow> MeasurementPackage \<Rightarrow> UKF option" where
  "UpdateRadar st meas_package =
     (let n_z = 3;
          n_sig = 2 * n_aug st + 1
      in case those (map (\<lambda>i. radar_measurement_point (Xsig_pred st ! i)) [0..<n_sig]) of
           None \<Rightarrow> None
         | Some Zsig \<Rightarrow>
             (let z_pred = weighted_mean (weights st) Zsig n_sig (zero_vec n_z)
              in case those (map (\<lambda>i. normalized_diff 1 (Zsig ! i) z_pred) [0..<n_sig]) of
                   None \<Rightarrow> None
                 | Some z_diff \<Rightarrow>
                     (let R = [[std_radr st * std_radr st, 0, 0],
                               [0, std_radphi st * std_radphi st, 0],
                               [0, 0, std_radrd st * std_radrd st]];
                          S = mat_add (measurement_covariance (weights st) z_diff n_sig
                                         (zero_mat n_z n_z)) R
                      in case cross_correlation (weights st) (Xsig_pred st) (x_vec st) z_diff
                                [0..<n_sig] (zero_mat (n_x st) n_z) of
                           None \<Rightarrow> None
                         | Some Tc \<Rightarrow>
                             if length (raw_measurements meas_package) \<noteq> n_z then None
                             else
                               (case inverse_mat S of
                                  None \<Rightarrow> None
                                | Some Si \<Rightarrow>
                                    (case normalized_diff 1 (raw_measurements meas_package)
                                            z_pred of
                                       None \<Rightarrow> None
                                     | Some z_diff_real \<Rightarrow>
                                         (let K = mat_mul Tc Si
                                          in Some (st\<lparr> x_vec := vec_add (x_vec st)
                                                                   (mat_vec K z_diff_real),
                                                       P_mat := mat_sub (P_mat st)
                                                                  (mat_mul (mat_mul K S)
                                                                     (transpose_mat K)),
                                                       NIS_radar :=
                                                         quadratic_form z_diff_real Si \<rparr>)))))))"

section \<open>Processing a measurement\<close>

text \<open>
  \<^verbatim>\<open>UKF::ProcessMeasurement\<close>. Reading the coefficients 0 and 1 of a measurement with fewer
  than two components is Eigen's index error, \<open>None\<close>. The sensor type has the two values
  \<^verbatim>\<open>LASER\<close> and \<^verbatim>\<open>RADAR\<close>, so that the \<open>else if\<close> of the initialization is an \<open>else\<close>. The
  argument \<open>factor\<close> is the one of \<open>Prediction\<close>.
\<close>

definition ProcessMeasurement ::
  "(mat \<Rightarrow> mat) \<Rightarrow> UKF \<Rightarrow> MeasurementPackage \<Rightarrow> UKF option" where
  "ProcessMeasurement factor st meas_package =
     (if \<not> is_initialized st then
        (if length (raw_measurements meas_package) < 2 then None
         else
           (let x = (case sensor_type meas_package of
                       RADAR \<Rightarrow>
                         (let ro = raw_measurements meas_package ! 0;
                              phi = raw_measurements meas_package ! 1
                          in (x_vec st)[0 := ro * cos phi, 1 := ro * sin phi])
                     | LASER \<Rightarrow>
                         (x_vec st)[0 := raw_measurements meas_package ! 0,
                                    1 := raw_measurements meas_package ! 1])
            in Some (st\<lparr> x_vec := x,
                         is_initialized := True,
                         time_us := timestamp meas_package \<rparr>)))
      else
        (let dt = real_of_int (timestamp meas_package - time_us st) / 1000000;
             st1 = st\<lparr> time_us := timestamp meas_package \<rparr>
         in case Prediction factor dt st1 of
              None \<Rightarrow> None
            | Some st2 \<Rightarrow>
                (case sensor_type meas_package of
                   RADAR \<Rightarrow> UpdateRadar st2 meas_package
                 | LASER \<Rightarrow> UpdateLidar st2 meas_package)))"

text \<open>A sequence of measurements, one call each; an error ends the run.\<close>

fun ProcessMeasurements ::
  "(mat \<Rightarrow> mat) \<Rightarrow> UKF \<Rightarrow> MeasurementPackage list \<Rightarrow> UKF option" where
  "ProcessMeasurements factor st [] = Some st"
| "ProcessMeasurements factor st (m # ms) =
     (case ProcessMeasurement factor st m of
        None \<Rightarrow> None
      | Some st' \<Rightarrow> ProcessMeasurements factor st' ms)"

section \<open>Closed forms of the two point models\<close>

text \<open>
  What one pass of the propagation loop and one pass of the measurement loop compute, with
  the divisions written as plain quotients; the lemmas below show that the guarded
  divisions of \<open>predict_sigma_point\<close> and \<open>radar_measurement_point\<close> always succeed with
  these values.
\<close>

definition ctrv :: "real \<Rightarrow> vec \<Rightarrow> vec" where
  "ctrv delta_t c =
     [c ! 0 + (if \<bar>c ! 4\<bar> > 0.001
               then c ! 2 / c ! 4 * (sin (c ! 3 + c ! 4 * delta_t) - sin (c ! 3))
               else c ! 2 * delta_t * cos (c ! 3))
            + 0.5 * c ! 5 * delta_t * delta_t * cos (c ! 3),
      c ! 1 + (if \<bar>c ! 4\<bar> > 0.001
               then c ! 2 / c ! 4 * (cos (c ! 3) - cos (c ! 3 + c ! 4 * delta_t))
               else c ! 2 * delta_t * sin (c ! 3))
            + 0.5 * c ! 5 * delta_t * delta_t * sin (c ! 3),
      c ! 2 + c ! 5 * delta_t,
      c ! 3 + c ! 4 * delta_t + 0.5 * c ! 6 * delta_t * delta_t,
      c ! 4 + c ! 6 * delta_t]"

definition radar_range :: "vec \<Rightarrow> real" where
  "radar_range c =
     (if sqrt (c ! 0 * c ! 0 + c ! 1 * c ! 1) < 0.001 then 0.001
      else sqrt (c ! 0 * c ! 0 + c ! 1 * c ! 1))"

definition radar_model :: "vec \<Rightarrow> vec" where
  "radar_model c =
     [radar_range c,
      atan2 (c ! 1) (c ! 0),
      (c ! 0 * (cos (c ! 3) * c ! 2) + c ! 1 * (sin (c ! 3) * c ! 2)) / radar_range c]"

section \<open>The predicted sigma points\<close>

text \<open>The sigma points that \<open>Prediction\<close> stores: the augmented sigma points, each propagated.\<close>

definition predicted_points :: "(mat \<Rightarrow> mat) \<Rightarrow> real \<Rightarrow> UKF \<Rightarrow> mat" where
  "predicted_points factor delta_t st =
     map (\<lambda>i. ctrv delta_t
            (augmented_sigma_points (n_aug st) (lambda st) (augmented_mean st)
               (factor (augmented_covariance st)) ! i)) [0..<2 * n_aug st + 1]"

section \<open>Observing a run\<close>

text \<open>
  The two flags of the constructor, set to given values, and what a caller reads from the
  filter after a call: mean, covariance, both NIS values and the recorded time.
\<close>

definition set_flags :: "bool \<Rightarrow> bool \<Rightarrow> UKF \<Rightarrow> UKF" where
  "set_flags a b st = st\<lparr> use_laser := a, use_radar := b \<rparr>"

definition outputs :: "UKF \<Rightarrow> vec \<times> mat \<times> real \<times> real \<times> int" where
  "outputs st = (x_vec st, P_mat st, NIS_radar st, NIS_laser st, time_us st)"

section \<open>The linear Kalman correction in closed form\<close>

text \<open>
  The correction of section 4.4 of the specification, written out coefficient by
  coefficient for the observation matrix that projects the state onto its first two
  coefficients: innovation \<open>y = z - (x\<^sub>0, x\<^sub>1)\<close>, innovation covariance \<open>S\<close> the upper left 2 by 2
  block of \<open>P\<close> plus \<open>diag(std_laspx\<^sup>2, std_laspy\<^sup>2)\<close>, gain \<open>K\<close> the first two columns of \<open>P\<close>
  times \<open>S\<^sup>-\<^sup>1\<close>, new mean \<open>x + K y\<close>, new covariance \<open>P - K\<close> times the first two rows of \<open>P\<close>,
  and NIS \<open>y\<^sup>T S\<^sup>-\<^sup>1 y\<close>.
\<close>

definition lidar_innovation :: "vec \<Rightarrow> vec \<Rightarrow> vec" where
  "lidar_innovation x z = [z ! 0 - x ! 0, z ! 1 - x ! 1]"

definition lidar_innovation_covariance :: "UKF \<Rightarrow> mat" where
  "lidar_innovation_covariance st =
     [[P_mat st ! 0 ! 0 + (std_laspx st)\<^sup>2, P_mat st ! 0 ! 1],
      [P_mat st ! 1 ! 0, P_mat st ! 1 ! 1 + (std_laspy st)\<^sup>2]]"

definition lidar_gain :: "mat \<Rightarrow> mat \<Rightarrow> mat" where
  "lidar_gain P Si =
     map (\<lambda>i. [P ! i ! 0 * Si ! 0 ! 0 + P ! i ! 1 * Si ! 1 ! 0,
               P ! i ! 0 * Si ! 0 ! 1 + P ! i ! 1 * Si ! 1 ! 1]) [0..<5]"

definition lidar_closed_form :: "UKF \<Rightarrow> vec \<Rightarrow> UKF option" where
  "lidar_closed_form st z =
     (case inverse_mat (lidar_innovation_covariance st) of
        None \<Rightarrow> None
      | Some Si \<Rightarrow>
          (let y = lidar_innovation (x_vec st) z;
               K = lidar_gain (P_mat st) Si
           in Some (st\<lparr> x_vec := map (\<lambda>i. x_vec st ! i + (K ! i ! 0 * y ! 0 + K ! i ! 1 * y ! 1))
                                     [0..<5],
                        P_mat := map (\<lambda>i. map (\<lambda>j. P_mat st ! i ! j
                                     - (K ! i ! 0 * P_mat st ! 0 ! j + K ! i ! 1 * P_mat st ! 1 ! j))
                                     [0..<5]) [0..<5],
                        NIS_laser := y ! 0 * (Si ! 0 ! 0 * y ! 0 + Si ! 0 ! 1 * y ! 1)
                                   + y ! 1 * (Si ! 1 ! 0 * y ! 0 + Si ! 1 ! 1 * y ! 1) \<rparr>)))"

section \<open>The unscented radar correction in closed form\<close>

text \<open>
  The correction of section 4.5 of the specification, as weighted sums over the
  \<open>2 n_aug + 1\<close> predicted sigma points: each point mapped by the measurement model, the
  predicted measurement mean, the residuals with their bearing normalized, the innovation
  covariance \<open>S\<close> with the measurement noise added, the state deviations with their heading
  normalized, the cross-correlation \<open>Tc\<close>, the gain \<open>K = Tc S\<^sup>-\<^sup>1\<close>, and the update of mean,
  covariance and NIS. The normalization here is the closed form \<open>wrap_angle\<close>, not the loops
  of the code.
\<close>

definition radar_z_pred :: "UKF \<Rightarrow> vec" where
  "radar_z_pred st =
     map (\<lambda>k. \<Sum>i<2 * n_aug st + 1. weights st ! i * radar_model (Xsig_pred st ! i) ! k) [0..<3]"

definition radar_residual :: "vec \<Rightarrow> vec \<Rightarrow> vec" where
  "radar_residual z z_pred =
     [z ! 0 - z_pred ! 0, wrap_angle (z ! 1 - z_pred ! 1), z ! 2 - z_pred ! 2]"

definition radar_z_diff :: "UKF \<Rightarrow> nat \<Rightarrow> vec" where
  "radar_z_diff st i = radar_residual (radar_model (Xsig_pred st ! i)) (radar_z_pred st)"

definition radar_noise :: "UKF \<Rightarrow> mat" where
  "radar_noise st = [[(std_radr st)\<^sup>2, 0, 0], [0, (std_radphi st)\<^sup>2, 0], [0, 0, (std_radrd st)\<^sup>2]]"

definition radar_S :: "UKF \<Rightarrow> mat" where
  "radar_S st =
     map (\<lambda>a. map (\<lambda>b. (\<Sum>i<2 * n_aug st + 1.
                          weights st ! i * radar_z_diff st i ! a * radar_z_diff st i ! b)
                      + radar_noise st ! a ! b) [0..<3]) [0..<3]"

definition radar_x_diff :: "UKF \<Rightarrow> nat \<Rightarrow> vec" where
  "radar_x_diff st i =
     [Xsig_pred st ! i ! 0 - x_vec st ! 0,
      Xsig_pred st ! i ! 1 - x_vec st ! 1,
      Xsig_pred st ! i ! 2 - x_vec st ! 2,
      wrap_angle (Xsig_pred st ! i ! 3 - x_vec st ! 3),
      Xsig_pred st ! i ! 4 - x_vec st ! 4]"

definition radar_Tc :: "UKF \<Rightarrow> mat" where
  "radar_Tc st =
     map (\<lambda>a. map (\<lambda>b. \<Sum>i<2 * n_aug st + 1.
                          weights st ! i * radar_x_diff st i ! a * radar_z_diff st i ! b)
            [0..<3]) [0..<5]"

definition radar_gain :: "mat \<Rightarrow> mat \<Rightarrow> mat" where
  "radar_gain Tc Si = map (\<lambda>a. map (\<lambda>b. \<Sum>c<3. Tc ! a ! c * Si ! c ! b) [0..<3]) [0..<5]"

definition radar_closed_form :: "UKF \<Rightarrow> vec \<Rightarrow> UKF option" where
  "radar_closed_form st z =
     (case inverse_mat (radar_S st) of
        None \<Rightarrow> None
      | Some Si \<Rightarrow>
          (let K = radar_gain (radar_Tc st) Si;
               S = radar_S st;
               r = radar_residual z (radar_z_pred st)
           in Some (st\<lparr> x_vec := map (\<lambda>a. x_vec st ! a + (\<Sum>b<3. K ! a ! b * r ! b)) [0..<5],
                        P_mat := map (\<lambda>a. map (\<lambda>b. P_mat st ! a ! b
                                     - (\<Sum>d<3. (\<Sum>c<3. K ! a ! c * S ! c ! d) * K ! b ! d))
                                     [0..<5]) [0..<5],
                        NIS_radar := (\<Sum>b<3. (\<Sum>a<3. r ! a * Si ! a ! b) * r ! b) \<rparr>)))"

text \<open>
  The angles that \<open>UpdateRadar\<close> normalizes, for the measurement \<open>z\<close>: the heading deviation and
  the bearing residual of every sigma point, and the bearing residual of the measurement.
  They are moderate when none exceeds \<open>exact_limit\<close> in absolute value.
\<close>

definition radar_angles :: "UKF \<Rightarrow> vec \<Rightarrow> real list" where
  "radar_angles st z =
     map (\<lambda>i. Xsig_pred st ! i ! 3 - x_vec st ! 3) [0..<2 * n_aug st + 1]
     @ map (\<lambda>i. radar_model (Xsig_pred st ! i) ! 1 - radar_z_pred st ! 1) [0..<2 * n_aug st + 1]
     @ [z ! 1 - radar_z_pred st ! 1]"

definition moderate :: "real list \<Rightarrow> bool" where
  "moderate as = list_all (\<lambda>a. \<bar>a\<bar> \<le> exact_limit) as"

section \<open>Symmetric and positive semi-definite matrices\<close>

definition symmetric_mat :: "mat \<Rightarrow> bool" where
  "symmetric_mat M = (\<forall>i<length M. \<forall>j<length M. M ! i ! j = M ! j ! i)"

definition positive_semidefinite :: "mat \<Rightarrow> bool" where
  "positive_semidefinite M = (\<forall>u. length u = length M \<longrightarrow> 0 \<le> dot u (mat_vec M u))"

section \<open>Particular states\<close>

text \<open>
  A covariance in which the heading is correlated with both positions and with the speed:
  it is \<open>L L\<^sup>T\<close> for the lower-triangular \<open>L\<close> with unit diagonal in the first three columns, the
  row \<open>(l, l, l, l, 0)\<close> for the heading and \<open>l\<close> for the turn rate. The state \<open>st_turning\<close> has
  it with \<open>l = \<pi> / \<surd>3\<close>, a speed of 3 and the constructor's noise.
\<close>

definition heading_coupled :: "real \<Rightarrow> mat" where
  "heading_coupled l =
     [[1, 0, 0, l, 0],
      [0, 1, 0, l, 0],
      [0, 0, 1, l, 0],
      [l, l, l, 4 * l * l, 0],
      [0, 0, 0, 0, l * l]]"

definition st_turning :: UKF where
  "st_turning = UKF_init\<lparr> x_vec := [0, 0, 3, 0, 0], P_mat := heading_coupled (pi / sqrt 3) \<rparr>"

text \<open>
  A state without process noise and with the diagonal covariance \<open>diag(p, 1, 1, h\<^sup>2, 1)\<close>:
  \<open>p\<close> is the variance of the position \<open>x\<close>, \<open>h\<close> the standard deviation of the heading.
\<close>

definition quiet_state :: "real \<Rightarrow> real \<Rightarrow> UKF" where
  "quiet_state p h =
     UKF_init\<lparr> x_vec := [0, 0, 3, 0, 0],
                P_mat := [[p, 0, 0, 0, 0],
                          [0, 1, 0, 0, 0],
                          [0, 0, 1, 0, 0],
                          [0, 0, 0, h * h, 0],
                          [0, 0, 0, 0, 1]],
                std_a := 0,
                std_yawdd := 0 \<rparr>"

text \<open>
  A state as a prediction can leave it, ready for a radar update, with the covariance \<open>P\<close>:
  the sigma points lie on the positive \<open>x\<close> axis at rest, the central one at distance 1 with
  heading 0, seven at distance 2 with heading 4 and seven at distance \<open>1/2\<close> with heading
  \<open>-4\<close>; the mean is their weighted mean.
\<close>

definition radar_points :: mat where
  "radar_points =
     [[1, 0, 0, 0, 0],
      [2, 0, 0, 4, 0], [2, 0, 0, 4, 0], [2, 0, 0, 4, 0], [2, 0, 0, 4, 0],
      [2, 0, 0, 4, 0], [2, 0, 0, 4, 0], [2, 0, 0, 4, 0],
      [1 / 2, 0, 0, - 4, 0], [1 / 2, 0, 0, - 4, 0], [1 / 2, 0, 0, - 4, 0], [1 / 2, 0, 0, - 4, 0],
      [1 / 2, 0, 0, - 4, 0], [1 / 2, 0, 0, - 4, 0], [1 / 2, 0, 0, - 4, 0]]"

definition radar_state :: "mat \<Rightarrow> UKF" where
  "radar_state P =
     UKF_init\<lparr> x_vec := [19 / 12, 0, 0, 0, 0], P_mat := P, Xsig_pred := radar_points \<rparr>"

text \<open>The upper left 5 by 5 block of a matrix: the part of an augmented matrix that belongs
  to the state.\<close>

definition state_block :: "mat \<Rightarrow> mat" where
  "state_block M = map (take 5) (take 5 M)"

section \<open>The guarded divisions succeed\<close>

lemma predict_sigma_point_Some: "predict_sigma_point delta_t c = Some (ctrv delta_t c)"
  by (simp add: predict_sigma_point_def ctrv_def checked_div_def Let_def)

lemma radar_range_ge: "0.001 \<le> radar_range c"
  by (simp add: radar_range_def)

lemma radar_measurement_point_Some: "radar_measurement_point c = Some (radar_model c)"
proof -
  have nz: "radar_range c \<noteq> 0" using radar_range_ge [of c] by auto
  have a: "\<bar>sqrt (c ! 0 * c ! 0 + c ! 1 * c ! 1)\<bar> = sqrt (c ! 0 * c ! 0 + c ! 1 * c ! 1)"
    by (rule abs_of_nonneg) simp
  have "radar_measurement_point c =
          (case checked_div (c ! 0 * (cos (c ! 3) * c ! 2) + c ! 1 * (sin (c ! 3) * c ! 2))
                  (radar_range c) of
             None \<Rightarrow> None
           | Some r_dot \<Rightarrow> Some [radar_range c, atan2 (c ! 1) (c ! 0), r_dot])"
    unfolding radar_measurement_point_def Let_def a radar_range_def ..
  also have "\<dots> = Some (radar_model c)"
    using nz by (simp add: checked_div_def radar_model_def)
  finally show ?thesis .
qed

lemma those_map_Some: "those (map (\<lambda>i. Some (f i)) xs) = Some (map f xs)"
  by (induction xs) simp_all

section \<open>Coefficients of vectors and matrices\<close>

lemma vec_add_nth: "k < length a \<Longrightarrow> k < length b \<Longrightarrow> vec_add a b ! k = a ! k + b ! k"
  by (simp add: vec_add_def)

lemma vec_sub_nth: "k < length a \<Longrightarrow> k < length b \<Longrightarrow> vec_sub a b ! k = a ! k - b ! k"
  by (simp add: vec_sub_def)

lemma scal_vec_nth: "k < length a \<Longrightarrow> scal_vec c a ! k = c * a ! k"
  by (simp add: scal_vec_def)

lemma vec_add_length: "length (vec_add a b) = min (length a) (length b)"
  by (simp add: vec_add_def)

lemma vec_sub_length: "length (vec_sub a b) = min (length a) (length b)"
  by (simp add: vec_sub_def)

lemma scal_vec_length: "length (scal_vec c a) = length a"
  by (simp add: scal_vec_def)

lemma col_length: "length (col A j) = length A"
  by (simp add: col_def)

lemma col_nth: "i < length A \<Longrightarrow> col A j ! i = A ! i ! j"
  by (simp add: col_def)

lemma dims_nth: "dims r c A \<Longrightarrow> i < r \<Longrightarrow> length (A ! i) = c"
  by (simp add: dims_def list_all_length)

lemma dims_length: "dims r c A \<Longrightarrow> length A = r"
  by (simp add: dims_def)

lemma dimsI: "length A = r \<Longrightarrow> (\<And>i. i < r \<Longrightarrow> length (A ! i) = c) \<Longrightarrow> dims r c A"
  by (simp add: dims_def list_all_length)

section \<open>The accumulation loops as sums\<close>

lemma weighted_mean_length:
  "(\<And>i. i < n \<Longrightarrow> length (X ! i) = d) \<Longrightarrow> length z0 = d \<Longrightarrow>
   length (weighted_mean w X n z0) = d"
  unfolding weighted_mean_def
  by (induction n) (simp_all add: vec_add_length scal_vec_length)

lemma weighted_mean_nth:
  "(\<And>i. i < n \<Longrightarrow> length (X ! i) = d) \<Longrightarrow> length z0 = d \<Longrightarrow> k < d \<Longrightarrow>
   weighted_mean w X n z0 ! k = z0 ! k + (\<Sum>i<n. w ! i * X ! i ! k)"
proof (induction n)
  case 0
  then show ?case by (simp add: weighted_mean_def)
next
  case (Suc n)
  have l: "length (weighted_mean w X n z0) = d"
    using Suc.prems by (intro weighted_mean_length) simp_all
  have "weighted_mean w X (Suc n) z0 =
          vec_add (weighted_mean w X n z0) (scal_vec (w ! n) (X ! n))"
    by (simp add: weighted_mean_def)
  then have "weighted_mean w X (Suc n) z0 ! k =
          weighted_mean w X n z0 ! k + w ! n * X ! n ! k"
    using l Suc.prems by (simp add: vec_add_nth scal_vec_nth scal_vec_length)
  then show ?case using Suc by simp
qed

lemma sum_split_pairs:
  fixes f :: "nat \<Rightarrow> real"
  shows "(\<Sum>i<2 * n + 1. f i) = f 0 + (\<Sum>i<n. f (Suc i)) + (\<Sum>i<n. f (Suc (n + i)))"
proof -
  have "(\<Sum>i<2 * n + 1. f i) = f 0 + (\<Sum>i<2 * n. f (Suc i))"
    unfolding Suc_eq_plus1 [symmetric] by (rule sum.lessThan_Suc_shift)
  also have "(\<Sum>i<2 * n. f (Suc i)) = (\<Sum>i<n. f (Suc i)) + (\<Sum>i<n. f (Suc (n + i)))"
  proof -
    have "{..<2 * n} = {..<n} \<union> {n..<n + n}" by auto
    then have "(\<Sum>i<2 * n. f (Suc i)) = (\<Sum>i<n. f (Suc i)) + (\<Sum>i = n..<n + n. f (Suc i))"
      by (simp add: sum.union_disjoint ivl_disj_int)
    also have "(\<Sum>i = n..<n + n. f (Suc i)) = (\<Sum>i<n. f (Suc (n + i)))"
      using sum.shift_bounds_nat_ivl [of "\<lambda>i. f (Suc i)" 0 n n]
      by (simp add: lessThan_atLeast0 add.commute)
    finally show ?thesis .
  qed
  finally show ?thesis by simp
qed

lemma list2: "length xs = 2 \<Longrightarrow> xs = [xs ! 0, xs ! 1]"
  by (rule nth_equalityI) (auto simp: less_Suc_eq numeral_2_eq_2)

lemma list3: "length xs = 3 \<Longrightarrow> xs = [xs ! 0, xs ! 1, xs ! 2]"
  by (rule nth_equalityI) (auto simp: less_Suc_eq numeral_3_eq_3 numeral_2_eq_2)

lemma list5: "length xs = 5 \<Longrightarrow> xs = [xs ! 0, xs ! 1, xs ! 2, xs ! 3, xs ! 4]"
proof (rule nth_equalityI)
  assume l: "length xs = 5"
  show "length xs = length [xs ! 0, xs ! 1, xs ! 2, xs ! 3, xs ! 4]" using l by simp
  fix i assume "i < length xs"
  then have "i < 5" using l by simp
  then consider "i = 0" | "i = 1" | "i = 2" | "i = 3" | "i = 4" by linarith
  then show "xs ! i = [xs ! 0, xs ! 1, xs ! 2, xs ! 3, xs ! 4] ! i"
    by cases simp_all
qed

lemma dims55:
  assumes "dims 5 5 P"
  obtains p00 p01 p02 p03 p04 p10 p11 p12 p13 p14 p20 p21 p22 p23 p24
          p30 p31 p32 p33 p34 p40 p41 p42 p43 p44 :: real
  where "P = [[p00, p01, p02, p03, p04], [p10, p11, p12, p13, p14],
              [p20, p21, p22, p23, p24], [p30, p31, p32, p33, p34],
              [p40, p41, p42, p43, p44]]"
proof -
  have l: "length P = 5" using assms by (simp add: dims_def)
  have r: "length (P ! i) = 5" if "i < 5" for i
    using assms that by (simp add: dims_def list_all_length)
  have "P = [P ! 0, P ! 1, P ! 2, P ! 3, P ! 4]" using l by (rule list5)
  moreover have "P ! 0 = [P ! 0 ! 0, P ! 0 ! 1, P ! 0 ! 2, P ! 0 ! 3, P ! 0 ! 4]"
    by (rule list5) (simp add: r)
  moreover have "P ! 1 = [P ! 1 ! 0, P ! 1 ! 1, P ! 1 ! 2, P ! 1 ! 3, P ! 1 ! 4]"
    by (rule list5) (simp add: r)
  moreover have "P ! 2 = [P ! 2 ! 0, P ! 2 ! 1, P ! 2 ! 2, P ! 2 ! 3, P ! 2 ! 4]"
    by (rule list5) (simp add: r)
  moreover have "P ! 3 = [P ! 3 ! 0, P ! 3 ! 1, P ! 3 ! 2, P ! 3 ! 3, P ! 3 ! 4]"
    by (rule list5) (simp add: r)
  moreover have "P ! 4 = [P ! 4 ! 0, P ! 4 ! 1, P ! 4 ! 2, P ! 4 ! 3, P ! 4 ! 4]"
    by (rule list5) (simp add: r)
  ultimately have "P = [[P ! 0 ! 0, P ! 0 ! 1, P ! 0 ! 2, P ! 0 ! 3, P ! 0 ! 4],
     [P ! 1 ! 0, P ! 1 ! 1, P ! 1 ! 2, P ! 1 ! 3, P ! 1 ! 4],
     [P ! 2 ! 0, P ! 2 ! 1, P ! 2 ! 2, P ! 2 ! 3, P ! 2 ! 4],
     [P ! 3 ! 0, P ! 3 ! 1, P ! 3 ! 2, P ! 3 ! 3, P ! 3 ! 4],
     [P ! 4 ! 0, P ! 4 ! 1, P ! 4 ! 2, P ! 4 ! 3, P ! 4 ! 4]]"
    by simp
  then show ?thesis by (rule that)
qed

lemmas mat_defs = vec_add_def vec_sub_def scal_vec_def dot_def outer_def mat_add_def
  mat_sub_def scal_mat_def ncols_def col_def transpose_mat_def mat_vec_def mat_mul_def
  identity_mat_def zero_vec_def zero_mat_def

lemma map_upt_nth: "i < n \<Longrightarrow> map f [0..<n] ! i = f i"
  by (induction n) (auto simp: nth_append less_Suc_eq)

section \<open>Matrix operations, coefficient by coefficient\<close>

lemma dot_sum:
  "length a = n \<Longrightarrow> length b = n \<Longrightarrow> dot a b = (\<Sum>k<n. a ! k * b ! k)"
proof -
  assume a: "length a = n" and b: "length b = n"
  have "dot a b = (\<Sum>k<length (map2 (*) a b). map2 (*) a b ! k)"
    unfolding dot_def by (simp add: sum_list_sum_nth lessThan_atLeast0)
  also have "\<dots> = (\<Sum>k<n. a ! k * b ! k)"
    using a b by (intro sum.cong) simp_all
  finally show ?thesis .
qed

lemma ncols_dims: "dims r c A \<Longrightarrow> 0 < r \<Longrightarrow> ncols A = c"
  by (cases A) (simp_all add: ncols_def dims_def)

lemma mat_eqI:
  assumes "dims r c A" and "dims r c B"
    and "\<And>i j. i < r \<Longrightarrow> j < c \<Longrightarrow> A ! i ! j = B ! i ! j"
  shows "A = B"
proof (rule nth_equalityI)
  show "length A = length B" using assms(1,2) by (simp add: dims_def)
  fix i assume "i < length A"
  then have i: "i < r" using assms(1) by (simp add: dims_def)
  show "A ! i = B ! i"
  proof (rule nth_equalityI)
    show "length (A ! i) = length (B ! i)"
      using assms(1,2) i by (simp add: dims_nth)
    fix j assume "j < length (A ! i)"
    then have "j < c" using assms(1) i by (simp add: dims_nth)
    then show "A ! i ! j = B ! i ! j" using i by (rule assms(3) [rotated])
  qed
qed

lemma dims_map: "dims r c (map (\<lambda>i. map (f i) [0..<c]) [0..<r])"
  by (simp add: dims_def list_all_iff)

lemma mat_mul_dims:
  "dims r n A \<Longrightarrow> dims n c B \<Longrightarrow> 0 < n \<Longrightarrow> dims r c (mat_mul A B)"
  by (rule dimsI) (simp_all add: mat_mul_def ncols_dims dims_length)

lemma mat_mul_nth:
  assumes "dims r n A" and "dims n c B" and "0 < n" and "i < r" and "j < c"
  shows "mat_mul A B ! i ! j = (\<Sum>k<n. A ! i ! k * B ! k ! j)"
proof -
  have "mat_mul A B ! i ! j = dot (A ! i) (col B j)"
    using assms by (simp add: mat_mul_def ncols_dims dims_length)
  also have "\<dots> = (\<Sum>k<n. A ! i ! k * col B j ! k)"
    using assms by (intro dot_sum) (simp_all add: dims_nth col_length dims_length)
  also have "\<dots> = (\<Sum>k<n. A ! i ! k * B ! k ! j)"
    using assms by (intro sum.cong refl) (simp add: col_nth dims_length)
  finally show ?thesis .
qed

lemma transpose_mat_dims: "dims r c A \<Longrightarrow> 0 < r \<Longrightarrow> dims c r (transpose_mat A)"
  by (rule dimsI) (simp_all add: transpose_mat_def ncols_dims col_length dims_length)

lemma transpose_mat_nth:
  "dims r c A \<Longrightarrow> 0 < r \<Longrightarrow> i < r \<Longrightarrow> j < c \<Longrightarrow> transpose_mat A ! j ! i = A ! i ! j"
  by (simp add: transpose_mat_def ncols_dims col_nth dims_length)

lemma mat_add_dims: "dims r c A \<Longrightarrow> dims r c B \<Longrightarrow> dims r c (mat_add A B)"
  by (rule dimsI) (simp_all add: mat_add_def dims_length vec_add_length dims_nth)

lemma mat_add_nth:
  "dims r c A \<Longrightarrow> dims r c B \<Longrightarrow> i < r \<Longrightarrow> j < c \<Longrightarrow>
   mat_add A B ! i ! j = A ! i ! j + B ! i ! j"
  by (simp add: mat_add_def dims_length vec_add_nth dims_nth)

lemma mat_sub_dims: "dims r c A \<Longrightarrow> dims r c B \<Longrightarrow> dims r c (mat_sub A B)"
  by (rule dimsI) (simp_all add: mat_sub_def dims_length vec_sub_length dims_nth)

lemma mat_sub_nth:
  "dims r c A \<Longrightarrow> dims r c B \<Longrightarrow> i < r \<Longrightarrow> j < c \<Longrightarrow>
   mat_sub A B ! i ! j = A ! i ! j - B ! i ! j"
  by (simp add: mat_sub_def dims_length vec_sub_nth dims_nth)

lemma mat_vec_length: "length (mat_vec A v) = length A"
  by (simp add: mat_vec_def)

lemma mat_vec_nth:
  assumes "dims r n A" and "length v = n" and "i < r"
  shows "mat_vec A v ! i = (\<Sum>k<n. A ! i ! k * v ! k)"
proof -
  have "mat_vec A v ! i = dot (A ! i) v"
    using assms by (simp add: mat_vec_def dims_length)
  also have "\<dots> = (\<Sum>k<n. A ! i ! k * v ! k)"
    using assms by (intro dot_sum) (simp_all add: dims_nth)
  finally show ?thesis .
qed

lemma outer_dims: "length a = r \<Longrightarrow> length b = c \<Longrightarrow> dims r c (outer a b)"
  by (rule dimsI) (simp_all add: outer_def scal_vec_length)

lemma outer_nth:
  "i < length a \<Longrightarrow> j < length b \<Longrightarrow> outer a b ! i ! j = a ! i * b ! j"
  by (simp add: outer_def scal_vec_nth)

lemma zero_mat_dims: "dims r c (zero_mat r c)"
  by (simp add: zero_mat_def dims_def list_all_length)

lemma zero_mat_nth: "i < r \<Longrightarrow> j < c \<Longrightarrow> zero_mat r c ! i ! j = 0"
  by (simp add: zero_mat_def)

lemma fold_mat_add_dims:
  "(\<And>i. i < n \<Longrightarrow> dims r c (F i)) \<Longrightarrow> dims r c M0 \<Longrightarrow>
   dims r c (fold (\<lambda>i M. mat_add M (F i)) [0..<n] M0)"
  by (induction n) (simp_all add: mat_add_dims)

lemma fold_mat_add_nth:
  "(\<And>i. i < n \<Longrightarrow> dims r c (F i)) \<Longrightarrow> dims r c M0 \<Longrightarrow> a < r \<Longrightarrow> b < c \<Longrightarrow>
   fold (\<lambda>i M. mat_add M (F i)) [0..<n] M0 ! a ! b = M0 ! a ! b + (\<Sum>i<n. F i ! a ! b)"
proof (induction n)
  case 0
  then show ?case by simp
next
  case (Suc n)
  have d: "dims r c (fold (\<lambda>i M. mat_add M (F i)) [0..<n] M0)"
    using Suc.prems by (intro fold_mat_add_dims) simp_all
  have "fold (\<lambda>i M. mat_add M (F i)) [0..<Suc n] M0 ! a ! b =
        fold (\<lambda>i M. mat_add M (F i)) [0..<n] M0 ! a ! b + F n ! a ! b"
    using d Suc.prems by (simp add: mat_add_nth)
  then show ?case using Suc by simp
qed

lemma quadratic_form_sum:
  assumes "length y = n" and "dims n n Si" and "0 < n"
  shows "quadratic_form y Si = (\<Sum>b<n. (\<Sum>a<n. y ! a * Si ! a ! b) * y ! b)"
proof -
  have d1: "dims 1 n [y]" using assms by (simp add: dims_def)
  have d: "dims 1 n (mat_mul [y] Si)"
    using d1 assms by (intro mat_mul_dims)
  have "quadratic_form y Si = mat_vec (mat_mul [y] Si) y ! 0"
    unfolding quadratic_form_def
    by (rule hd_conv_nth) (simp add: mat_vec_def mat_mul_def)
  also have "\<dots> = (\<Sum>b<n. mat_mul [y] Si ! 0 ! b * y ! b)"
    using d assms(1) by (rule mat_vec_nth) simp
  also have "\<dots> = (\<Sum>b<n. (\<Sum>a<n. y ! a * Si ! a ! b) * y ! b)"
  proof (intro sum.cong refl)
    fix b assume "b \<in> {..<n}"
    then have b: "b < n" by simp
    have z: "(0::nat) < 1" by simp
    have "mat_mul [y] Si ! 0 ! b = (\<Sum>a<n. [y] ! 0 ! a * Si ! a ! b)"
      using d1 assms(2) assms(3) z b by (rule mat_mul_nth)
    then show "mat_mul [y] Si ! 0 ! b * y ! b = (\<Sum>a<n. y ! a * Si ! a ! b) * y ! b"
      by simp
  qed
  finally show ?thesis .
qed

section \<open>The normalization loops\<close>

lemma rounded_sub_bound: "a - 8 \<le> rounded_sub a \<and> rounded_sub a \<le> a - 4"
proof -
  have "\<forall>a. a - 8 \<le> (\<lambda>a. a - 2 * pi) a \<and> (\<lambda>a. a - 2 * pi) a \<le> a - 4"
    using pi_ge_two pi_less_4 by simp
  then have "\<forall>a. a - 8 \<le> rounded_sub a \<and> rounded_sub a \<le> a - 4"
    unfolding rounded_sub_def
    by (rule someI [where P = "\<lambda>f. \<forall>a. a - 8 \<le> f a \<and> f a \<le> a - 4"])
  then show ?thesis by simp
qed

lemma rounded_add_bound: "a + 4 \<le> rounded_add a \<and> rounded_add a \<le> a + 8"
proof -
  have "\<forall>a. a + 4 \<le> (\<lambda>a. a + 2 * pi) a \<and> (\<lambda>a. a + 2 * pi) a \<le> a + 8"
    using pi_ge_two pi_less_4 by simp
  then have "\<forall>a. a + 4 \<le> rounded_add a \<and> rounded_add a \<le> a + 8"
    unfolding rounded_add_def
    by (rule someI [where P = "\<lambda>f. \<forall>a. a + 4 \<le> f a \<and> f a \<le> a + 8"])
  then show ?thesis by simp
qed

lemma norm_down_absorbed:
  assumes "norm_down a = Some r"
  shows "a \<le> absorb_limit"
proof (rule norm_down.raw_induct [where P = "\<lambda>a r. a \<le> absorb_limit", OF _ assms])
  fix nd :: "real \<Rightarrow> real option" and a r :: real
  assume IH: "\<And>a r. nd a = Some r \<Longrightarrow> a \<le> absorb_limit"
    and step: "(if pi < a then nd (sub_2pi a) else Some a) = Some r"
  show "a \<le> absorb_limit"
  proof (rule ccontr)
    assume "\<not> a \<le> absorb_limit"
    then have big: "absorb_limit < a" by simp
    have "pi < a" using big pi_less_4 by (simp add: absorb_limit_def)
    moreover have "sub_2pi a = a"
      using big by (simp add: sub_2pi_def exact_limit_def absorb_limit_def)
    ultimately have "nd a = Some r" using step by simp
    then have "a \<le> absorb_limit" by (rule IH)
    with big show False by simp
  qed
qed

lemma norm_up_absorbed:
  assumes "norm_up a = Some r"
  shows "- absorb_limit \<le> a"
proof (rule norm_up.raw_induct [where P = "\<lambda>a r. - absorb_limit \<le> a", OF _ assms])
  fix nu :: "real \<Rightarrow> real option" and a r :: real
  assume IH: "\<And>a r. nu a = Some r \<Longrightarrow> - absorb_limit \<le> a"
    and step: "(if a < - pi then nu (add_2pi a) else Some a) = Some r"
  show "- absorb_limit \<le> a"
  proof (rule ccontr)
    assume "\<not> - absorb_limit \<le> a"
    then have big: "a < - absorb_limit" by simp
    have "a < - pi" using big pi_less_4 by (simp add: absorb_limit_def)
    moreover have "add_2pi a = a"
      using big by (simp add: add_2pi_def exact_limit_def absorb_limit_def)
    ultimately have "nu a = Some r" using step by simp
    then have "- absorb_limit \<le> a" by (rule IH)
    with big show False by simp
  qed
qed

lemma norm_down_id: "a \<le> pi \<Longrightarrow> norm_down a = Some a"
  by (subst norm_down.simps) simp

lemma norm_up_id: "- pi \<le> a \<Longrightarrow> norm_up a = Some a"
  by (subst norm_up.simps) simp

lemma norm_down_exact_steps:
  "\<bar>a\<bar> \<le> exact_limit \<Longrightarrow> pi < a \<Longrightarrow> \<lceil>(a - pi) / (2 * pi)\<rceil> = int n \<Longrightarrow>
   norm_down a = Some (a - 2 * pi * real n)"
proof (induction n arbitrary: a)
  case 0
  have "0 < (a - pi) / (2 * pi)" using 0(2) by simp
  then have "0 < \<lceil>(a - pi) / (2 * pi)\<rceil>" by simp
  then show ?case using 0(3) by simp
next
  case (Suc n)
  have e: "(a - 2 * pi - pi) / (2 * pi) = (a - pi) / (2 * pi) - 1"
    by (simp add: field_simps)
  have c: "\<lceil>(a - 2 * pi - pi) / (2 * pi)\<rceil> = int n"
    unfolding e using Suc(4) by simp
  have s: "sub_2pi a = a - 2 * pi" using Suc(2) by (simp add: sub_2pi_def)
  have st: "norm_down a = norm_down (a - 2 * pi)"
    using Suc(3) by (subst norm_down.simps) (simp add: s)
  show ?case
  proof (cases "pi < a - 2 * pi")
    case True
    have "\<bar>a - 2 * pi\<bar> \<le> exact_limit" using Suc(2) True pi_gt_zero unfolding abs_le_iff by linarith
    then have "norm_down (a - 2 * pi) = Some (a - 2 * pi - 2 * pi * real n)"
      using True c by (rule Suc.IH)
    then show ?thesis unfolding st by (simp add: algebra_simps)
  next
    case False
    then have le: "a - 2 * pi \<le> pi" by simp
    define q where "q = (a - 2 * pi - pi) / (2 * pi)"
    have "q \<le> 0" unfolding q_def using le by (simp add: field_simps)
    then have "\<lceil>q\<rceil> \<le> 0" by (simp add: ceiling_le_iff)
    moreover have "\<lceil>q\<rceil> = int n" unfolding q_def by (rule c)
    ultimately have "n = 0" by linarith
    then show ?thesis unfolding st using le by (simp add: norm_down_id)
  qed
qed

lemma norm_up_exact_steps:
  "\<bar>a\<bar> \<le> exact_limit \<Longrightarrow> a < - pi \<Longrightarrow> \<lceil>(- a - pi) / (2 * pi)\<rceil> = int n \<Longrightarrow>
   norm_up a = Some (a + 2 * pi * real n)"
proof (induction n arbitrary: a)
  case 0
  have "0 < (- a - pi) / (2 * pi)" using 0(2) by simp
  then have "0 < \<lceil>(- a - pi) / (2 * pi)\<rceil>" by simp
  then show ?case using 0(3) by simp
next
  case (Suc n)
  have e: "(- (a + 2 * pi) - pi) / (2 * pi) = (- a - pi) / (2 * pi) - 1"
    by (simp add: field_simps)
  have c: "\<lceil>(- (a + 2 * pi) - pi) / (2 * pi)\<rceil> = int n"
    unfolding e using Suc(4) by simp
  have s: "add_2pi a = a + 2 * pi" using Suc(2) by (simp add: add_2pi_def)
  have st: "norm_up a = norm_up (a + 2 * pi)"
    using Suc(3) by (subst norm_up.simps) (simp add: s)
  show ?case
  proof (cases "a + 2 * pi < - pi")
    case True
    have "\<bar>a + 2 * pi\<bar> \<le> exact_limit" using Suc(2) True pi_gt_zero unfolding abs_le_iff by linarith
    then have "norm_up (a + 2 * pi) = Some (a + 2 * pi + 2 * pi * real n)"
      using True c by (rule Suc.IH)
    then show ?thesis unfolding st by (simp add: algebra_simps)
  next
    case False
    then have le: "- pi \<le> a + 2 * pi" by simp
    define q where "q = (- (a + 2 * pi) - pi) / (2 * pi)"
    have "q \<le> 0" unfolding q_def using le by (simp add: field_simps)
    then have "\<lceil>q\<rceil> \<le> 0" by (simp add: ceiling_le_iff)
    moreover have "\<lceil>q\<rceil> = int n" unfolding q_def by (rule c)
    ultimately have "n = 0" by linarith
    then show ?thesis unfolding st using le by (simp add: norm_up_id)
  qed
qed

lemma wrap_angle_range: "- pi \<le> wrap_angle a \<and> wrap_angle a \<le> pi"
proof -
  consider "pi < a" | "a < - pi" | "- pi \<le> a \<and> a \<le> pi" by linarith
  then show ?thesis
  proof cases
    case 1
    define q where "q = (a - pi) / (2 * pi)"
    have a: "a = pi + 2 * pi * q" unfolding q_def by (simp add: field_simps)
    have "q \<le> of_int \<lceil>q\<rceil>" "of_int \<lceil>q\<rceil> < q + 1" by linarith+
    then have "2 * pi * q \<le> 2 * pi * of_int \<lceil>q\<rceil>" "2 * pi * of_int \<lceil>q\<rceil> < 2 * pi * (q + 1)"
      by simp_all
    then have "a - 2 * pi * of_int \<lceil>q\<rceil> \<le> pi" "- pi < a - 2 * pi * of_int \<lceil>q\<rceil>"
      unfolding a by (simp_all add: algebra_simps)
    then show ?thesis using 1 unfolding wrap_angle_def q_def by simp
  next
    case 2
    define q where "q = (- a - pi) / (2 * pi)"
    have a: "a = - pi - 2 * pi * q" unfolding q_def by (simp add: field_simps)
    have "q \<le> of_int \<lceil>q\<rceil>" "of_int \<lceil>q\<rceil> < q + 1" by linarith+
    then have "2 * pi * q \<le> 2 * pi * of_int \<lceil>q\<rceil>" "2 * pi * of_int \<lceil>q\<rceil> < 2 * pi * (q + 1)"
      by simp_all
    then have "- pi \<le> a + 2 * pi * of_int \<lceil>q\<rceil>" "a + 2 * pi * of_int \<lceil>q\<rceil> < pi"
      unfolding a by (simp_all add: algebra_simps)
    moreover have "\<not> pi < a" using 2 pi_gt_zero by linarith
    ultimately show ?thesis using 2 unfolding wrap_angle_def q_def by simp
  next
    case 3
    then show ?thesis unfolding wrap_angle_def by simp
  qed
qed

lemma angle_normalization_exact:
  assumes "\<bar>a\<bar> \<le> exact_limit"
  shows "angle_normalization a = Some (wrap_angle a)"
proof -
  consider "pi < a" | "a < - pi" | "- pi \<le> a \<and> a \<le> pi" by linarith
  then show ?thesis
  proof cases
    case 1
    have "0 < (a - pi) / (2 * pi)" using 1 by simp
    then have "0 \<le> \<lceil>(a - pi) / (2 * pi)\<rceil>" by simp
    then obtain n where n: "\<lceil>(a - pi) / (2 * pi)\<rceil> = int n"
      using zero_le_imp_eq_int by blast
    have d: "norm_down a = Some (a - 2 * pi * real n)"
      using assms 1 n by (rule norm_down_exact_steps)
    have w: "wrap_angle a = a - 2 * pi * real n"
      using 1 by (simp add: wrap_angle_def n)
    have "- pi \<le> a - 2 * pi * real n" using wrap_angle_range [of a] unfolding w by simp
    then have "norm_up (a - 2 * pi * real n) = Some (a - 2 * pi * real n)" by (rule norm_up_id)
    then show ?thesis unfolding angle_normalization_def d w by simp
  next
    case 2
    have le: "a \<le> pi" using 2 pi_gt_zero by linarith
    have d: "norm_down a = Some a" using le by (rule norm_down_id)
    have "0 < (- a - pi) / (2 * pi)" using 2 by simp
    then have "0 \<le> \<lceil>(- a - pi) / (2 * pi)\<rceil>" by simp
    then obtain n where n: "\<lceil>(- a - pi) / (2 * pi)\<rceil> = int n"
      using zero_le_imp_eq_int by blast
    have u: "norm_up a = Some (a + 2 * pi * real n)"
      using assms 2 n by (rule norm_up_exact_steps)
    have w: "wrap_angle a = a + 2 * pi * real n"
      using 2 le by (simp add: wrap_angle_def n)
    show ?thesis unfolding angle_normalization_def d w using u by simp
  next
    case 3
    then have "norm_down a = Some a" "norm_up a = Some a" "wrap_angle a = a"
      by (simp_all add: norm_down_id norm_up_id wrap_angle_def)
    then show ?thesis unfolding angle_normalization_def by simp
  qed
qed


lemma wrap_angle_down: "pi < a \<Longrightarrow> - pi < wrap_angle a"
proof -
  assume 1: "pi < a"
  define q where "q = (a - pi) / (2 * pi)"
  have a: "a = pi + 2 * pi * q" unfolding q_def by (simp add: field_simps)
  have "of_int \<lceil>q\<rceil> < q + 1" by linarith
  then have "2 * pi * of_int \<lceil>q\<rceil> < 2 * pi * (q + 1)" by simp
  then have "- pi < a - 2 * pi * of_int \<lceil>q\<rceil>" unfolding a by (simp add: algebra_simps)
  then show ?thesis using 1 unfolding wrap_angle_def q_def by simp
qed

lemma wrap_angle_up: "a < - pi \<Longrightarrow> wrap_angle a < pi"
proof -
  assume 2: "a < - pi"
  define q where "q = (- a - pi) / (2 * pi)"
  have a: "a = - pi - 2 * pi * q" unfolding q_def by (simp add: field_simps)
  have "of_int \<lceil>q\<rceil> < q + 1" by linarith
  then have "2 * pi * of_int \<lceil>q\<rceil> < 2 * pi * (q + 1)" by simp
  then have "a + 2 * pi * of_int \<lceil>q\<rceil> < pi" unfolding a by (simp add: algebra_simps)
  moreover have "\<not> pi < a" using 2 pi_gt_zero by linarith
  ultimately show ?thesis using 2 unfolding wrap_angle_def q_def by simp
qed

lemma wrap_angle_id: "- pi \<le> a \<Longrightarrow> a \<le> pi \<Longrightarrow> wrap_angle a = a"
  by (simp add: wrap_angle_def)

lemma norm_down_exact:
  assumes "\<bar>a\<bar> \<le> exact_limit" and "pi < a"
  shows "norm_down a = Some (wrap_angle a)"
proof -
  have "0 < (a - pi) / (2 * pi)" using assms(2) by simp
  then have "0 \<le> \<lceil>(a - pi) / (2 * pi)\<rceil>" by simp
  then obtain n where n: "\<lceil>(a - pi) / (2 * pi)\<rceil> = int n"
    using zero_le_imp_eq_int by blast
  have "norm_down a = Some (a - 2 * pi * real n)"
    using assms n by (rule norm_down_exact_steps)
  moreover have "wrap_angle a = a - 2 * pi * real n"
    using assms(2) by (simp add: wrap_angle_def n)
  ultimately show ?thesis by simp
qed

lemma norm_up_exact:
  assumes "\<bar>a\<bar> \<le> exact_limit" and "a < - pi"
  shows "norm_up a = Some (wrap_angle a)"
proof -
  have le: "\<not> pi < a" using assms(2) pi_gt_zero by linarith
  have "0 < (- a - pi) / (2 * pi)" using assms(2) by simp
  then have "0 \<le> \<lceil>(- a - pi) / (2 * pi)\<rceil>" by simp
  then obtain n where n: "\<lceil>(- a - pi) / (2 * pi)\<rceil> = int n"
    using zero_le_imp_eq_int by blast
  have "norm_up a = Some (a + 2 * pi * real n)"
    using assms n by (rule norm_up_exact_steps)
  moreover have "wrap_angle a = a + 2 * pi * real n"
    using assms(2) le by (simp add: wrap_angle_def n)
  ultimately show ?thesis by simp
qed

lemma norm_down_returns_aux:
  "pi < a \<Longrightarrow> a \<le> absorb_limit \<Longrightarrow> \<lceil>a\<rceil> \<le> int n \<Longrightarrow>
   \<exists>r. norm_down a = Some r \<and> - pi < r \<and> r \<le> pi"
proof (induction n arbitrary: a rule: less_induct)
  case (less n)
  show ?case
  proof (cases "a \<le> exact_limit")
    case True
    have "\<bar>a\<bar> \<le> exact_limit" using True less(2) pi_gt_zero unfolding abs_le_iff by linarith
    then have "norm_down a = Some (wrap_angle a)" using less(2) by (rule norm_down_exact)
    then show ?thesis
      using wrap_angle_down [OF less(2)] wrap_angle_range [of a] by simp
  next
    case False
    then have big: "exact_limit < a" by simp
    define b where "b = rounded_sub a"
    have rb: "a - 8 \<le> b \<and> b \<le> a - 4" unfolding b_def by (rule rounded_sub_bound)
    have p: "pi < 4" using pi_less_4 by simp
    have b1: "b \<le> a - 2" using rb by linarith
    have b2: "pi < b" using rb p big unfolding exact_limit_def by linarith
    have b3: "b \<le> absorb_limit" using b1 less(3) by linarith
    have "\<lceil>b\<rceil> \<le> \<lceil>a - 2\<rceil>" using b1 by (rule ceiling_mono)
    then have c: "\<lceil>b\<rceil> \<le> \<lceil>a\<rceil> - 2" by simp
    have "0 < b" using b2 pi_gt_zero by linarith
    then have "0 < \<lceil>b\<rceil>" by simp
    then have n2: "nat \<lceil>b\<rceil> < n" using c less(4) by linarith
    have "\<lceil>b\<rceil> \<le> int (nat \<lceil>b\<rceil>)" by simp
    with n2 b2 b3 have "\<exists>r. norm_down b = Some r \<and> - pi < r \<and> r \<le> pi"
      by (rule less.IH)
    moreover have "sub_2pi a = b"
      using big less(3) less(2) pi_gt_zero
      by (simp add: sub_2pi_def b_def abs_le_iff exact_limit_def)
    then have "norm_down a = norm_down b"
      using less(2) by (subst norm_down.simps) simp
    ultimately show ?thesis by simp
  qed
qed

lemma norm_down_returns:
  assumes "pi < a" and "a \<le> absorb_limit"
  shows "\<exists>r. norm_down a = Some r \<and> - pi < r \<and> r \<le> pi"
proof -
  have "0 < a" using assms(1) pi_gt_zero by linarith
  then have "0 < \<lceil>a\<rceil>" by simp
  then have "0 \<le> \<lceil>a\<rceil>" by simp
  then have "\<lceil>a\<rceil> \<le> int (nat \<lceil>a\<rceil>)" by simp
  with assms show ?thesis by (rule norm_down_returns_aux)
qed

lemma norm_up_returns_aux:
  "a < - pi \<Longrightarrow> - absorb_limit \<le> a \<Longrightarrow> \<lceil>- a\<rceil> \<le> int n \<Longrightarrow>
   \<exists>r. norm_up a = Some r \<and> - pi \<le> r \<and> r < pi"
proof (induction n arbitrary: a rule: less_induct)
  case (less n)
  show ?case
  proof (cases "- exact_limit \<le> a")
    case True
    have "\<bar>a\<bar> \<le> exact_limit" using True less(2) pi_gt_zero unfolding abs_le_iff by linarith
    then have "norm_up a = Some (wrap_angle a)" using less(2) by (rule norm_up_exact)
    then show ?thesis
      using wrap_angle_up [OF less(2)] wrap_angle_range [of a] by simp
  next
    case False
    then have big: "a < - exact_limit" by simp
    define b where "b = rounded_add a"
    have rb: "a + 4 \<le> b \<and> b \<le> a + 8" unfolding b_def by (rule rounded_add_bound)
    have p: "pi < 4" using pi_less_4 by simp
    have b1: "- b \<le> - a - 2" using rb by linarith
    have b2: "b < - pi" using rb p big unfolding exact_limit_def by linarith
    have b3: "- absorb_limit \<le> b" using b1 less(3) by linarith
    have "\<lceil>- b\<rceil> \<le> \<lceil>- a - 2\<rceil>" using b1 by (rule ceiling_mono)
    then have c: "\<lceil>- b\<rceil> \<le> \<lceil>- a\<rceil> - 2" by simp
    have "0 < - b" using b2 pi_gt_zero by linarith
    then have "0 < \<lceil>- b\<rceil>" by simp
    then have n2: "nat \<lceil>- b\<rceil> < n" using c less(4) by linarith
    have "\<lceil>- b\<rceil> \<le> int (nat \<lceil>- b\<rceil>)" by simp
    with n2 b2 b3 have "\<exists>r. norm_up b = Some r \<and> - pi \<le> r \<and> r < pi"
      by (rule less.IH)
    moreover have "add_2pi a = b"
      using big less(3) less(2) pi_gt_zero
      by (simp add: add_2pi_def b_def abs_le_iff exact_limit_def)
    then have "norm_up a = norm_up b"
      using less(2) by (subst norm_up.simps) simp
    ultimately show ?thesis by simp
  qed
qed

lemma norm_up_returns:
  assumes "a < - pi" and "- absorb_limit \<le> a"
  shows "\<exists>r. norm_up a = Some r \<and> - pi \<le> r \<and> r < pi"
proof -
  have "0 < - a" using assms(1) pi_gt_zero by linarith
  then have "0 < \<lceil>- a\<rceil>" by simp
  then have "0 \<le> \<lceil>- a\<rceil>" by simp
  then have "\<lceil>- a\<rceil> \<le> int (nat \<lceil>- a\<rceil>)" by simp
  with assms show ?thesis by (rule norm_up_returns_aux)
qed

lemma angle_normalization_returns:
  assumes "\<bar>a\<bar> \<le> absorb_limit"
  shows "\<exists>r. angle_normalization a = Some r \<and> - pi \<le> r \<and> r \<le> pi"
proof -
  consider "pi < a" | "a < - pi" | "- pi \<le> a \<and> a \<le> pi" by linarith
  then show ?thesis
  proof cases
    case 1
    have "a \<le> absorb_limit" using assms by simp
    with 1 obtain r where r: "norm_down a = Some r" "- pi < r" "r \<le> pi"
      using norm_down_returns by blast
    have "norm_up r = Some r" using r(2) by (intro norm_up_id) simp
    then show ?thesis unfolding angle_normalization_def using r by simp
  next
    case 2
    have "a \<le> pi" using 2 pi_gt_zero by linarith
    then have d: "norm_down a = Some a" by (rule norm_down_id)
    have "- absorb_limit \<le> a" using assms unfolding abs_le_iff by linarith
    with 2 obtain r where r: "norm_up a = Some r" "- pi \<le> r" "r < pi"
      using norm_up_returns by blast
    then show ?thesis unfolding angle_normalization_def d by simp
  next
    case 3
    then have "norm_down a = Some a" "norm_up a = Some a"
      by (simp_all add: norm_down_id norm_up_id)
    then show ?thesis unfolding angle_normalization_def using 3 by simp
  qed
qed

lemma angle_normalization_absorbed:
  assumes "absorb_limit < \<bar>a\<bar>"
  shows "angle_normalization a = None"
proof (cases "0 \<le> a")
  case True
  then have "absorb_limit < a" using assms by simp
  then have "norm_down a = None"
    using norm_down_absorbed [of a] by (cases "norm_down a") auto
  then show ?thesis by (simp add: angle_normalization_def)
next
  case False
  then have big: "a < - absorb_limit" using assms by simp
  have "a \<le> pi" using False pi_gt_zero by linarith
  then have d: "norm_down a = Some a" by (rule norm_down_id)
  have "norm_up a = None"
    using norm_up_absorbed [of a] big by (cases "norm_up a") auto
  then show ?thesis by (simp add: angle_normalization_def d)
qed

lemma angle_normalization_None_iff:
  "angle_normalization a = None \<longleftrightarrow> absorb_limit < \<bar>a\<bar>"
proof
  assume n: "angle_normalization a = None"
  show "absorb_limit < \<bar>a\<bar>"
  proof (rule ccontr)
    assume "\<not> absorb_limit < \<bar>a\<bar>"
    then have "\<bar>a\<bar> \<le> absorb_limit" by simp
    then obtain r where "angle_normalization a = Some r"
      using angle_normalization_returns by blast
    with n show False by simp
  qed
qed (rule angle_normalization_absorbed)

lemma angle_normalization_Some_range:
  assumes "angle_normalization a = Some r"
  shows "- pi \<le> r \<and> r \<le> pi"
proof -
  have "\<not> absorb_limit < \<bar>a\<bar>" using assms angle_normalization_absorbed [of a] by auto
  then have "\<bar>a\<bar> \<le> absorb_limit" by simp
  then obtain r' where "angle_normalization a = Some r'" "- pi \<le> r'" "r' \<le> pi"
    using angle_normalization_returns by blast
  then show ?thesis using assms by simp
qed

lemma wrap_angle_congruent: "\<exists>k::int. wrap_angle a = a + 2 * pi * of_int k"
proof -
  consider "pi < a" | "\<not> pi < a" "a < - pi" | "\<not> pi < a" "\<not> a < - pi" by blast
  then show ?thesis
  proof cases
    case 1
    then have "wrap_angle a = a + 2 * pi * of_int (- \<lceil>(a - pi) / (2 * pi)\<rceil>)"
      by (simp add: wrap_angle_def)
    then show ?thesis by (rule exI)
  next
    case 2
    then have "wrap_angle a = a + 2 * pi * of_int \<lceil>(- a - pi) / (2 * pi)\<rceil>"
      by (simp add: wrap_angle_def)
    then show ?thesis by (rule exI)
  next
    case 3
    then have "wrap_angle a = a + 2 * pi * of_int 0" by (simp add: wrap_angle_def)
    then show ?thesis by (rule exI)
  qed
qed

lemma wrap_angle_once_down:
  assumes "pi < a" and "a \<le> 3 * pi"
  shows "wrap_angle a = a - 2 * pi"
proof -
  define q where "q = (a - pi) / (2 * pi)"
  have "0 < q" unfolding q_def using assms(1) by simp
  moreover have "q \<le> 1" unfolding q_def using assms(2) by (simp add: field_simps)
  ultimately have "\<lceil>q\<rceil> = 1" by (intro ceiling_unique) simp_all
  then show ?thesis using assms(1) unfolding wrap_angle_def q_def by simp
qed

lemma wrap_angle_once_up:
  assumes "a < - pi" and "- (3 * pi) \<le> a"
  shows "wrap_angle a = a + 2 * pi"
proof -
  define q where "q = (- a - pi) / (2 * pi)"
  have "0 < q" unfolding q_def using assms(1) by simp
  moreover have "q \<le> 1" unfolding q_def using assms(2) by (simp add: field_simps)
  ultimately have "\<lceil>q\<rceil> = 1" by (intro ceiling_unique) simp_all
  moreover have "\<not> pi < a" using assms(1) pi_gt_zero by linarith
  ultimately show ?thesis using assms(1) unfolding wrap_angle_def q_def by simp
qed

lemma wrap_angle_4: "wrap_angle 4 = 4 - 2 * pi" "wrap_angle (- 4) = 2 * pi - 4"
proof -
  have p: "2 \<le> pi" "pi < 4" using pi_ge_two pi_less_4 by simp_all
  show "wrap_angle 4 = 4 - 2 * pi" using p by (intro wrap_angle_once_down) simp_all
  have "wrap_angle (- 4) = - 4 + 2 * pi" using p by (intro wrap_angle_once_up) simp_all
  then show "wrap_angle (- 4) = 2 * pi - 4" by simp
qed

lemma wrap_angle_6: "wrap_angle 6 = 6 - 2 * pi" "wrap_angle (- 6) = 2 * pi - 6"
proof -
  have p: "2 \<le> pi" "pi < 4" using pi_ge_two pi_less_4 by simp_all
  show "wrap_angle 6 = 6 - 2 * pi" using p by (intro wrap_angle_once_down) simp_all
  have "wrap_angle (- 6) = - 6 + 2 * pi" using p by (intro wrap_angle_once_up) simp_all
  then show "wrap_angle (- 6) = 2 * pi - 6" by simp
qed

lemma exact_below_absorb: "\<bar>a\<bar> \<le> exact_limit \<Longrightarrow> \<bar>a\<bar> \<le> absorb_limit"
  by (simp add: exact_limit_def absorb_limit_def)

section \<open>The range of the normalization\<close>

text \<open>
  Claim C4, as amended. For an input angle of absolute value at most \<open>2\<^sup>5\<^sup>6\<close> the normalization
  (subtract \<open>2\<pi>\<close> while the angle exceeds \<open>\<pi>\<close>, then add \<open>2\<pi>\<close> while it is below \<open>-\<pi>\<close>) returns, and
  its result lies in the closed interval from \<open>-\<pi>\<close> to \<open>\<pi>\<close>. For an input of absolute value at
  most 1000 the result is \<open>wrap_angle\<close> of the input, which lies in that interval and differs
  from the input by a multiple of \<open>2\<pi>\<close>. (For an input beyond \<open>2\<^sup>5\<^sup>6\<close> the loop does not end.)
\<close>

theorem angle_normalization_range:
  "(\<bar>a\<bar> \<le> absorb_limit \<longrightarrow>
      (\<exists>r. angle_normalization a = Some r \<and> - pi \<le> r \<and> r \<le> pi)) \<and>
   (\<bar>a\<bar> \<le> exact_limit \<longrightarrow> angle_normalization a = Some (wrap_angle a)) \<and>
   (absorb_limit < \<bar>a\<bar> \<longrightarrow> angle_normalization a = None) \<and>
   - pi \<le> wrap_angle a \<and> wrap_angle a \<le> pi \<and>
   (\<exists>k::int. wrap_angle a = a + 2 * pi * of_int k)"
  using angle_normalization_returns [of a] angle_normalization_exact [of a]
    angle_normalization_absorbed [of a] wrap_angle_range [of a] wrap_angle_congruent [of a]
  by blast

text \<open>The angle 4 is taken to \<open>4 - 2\<pi>\<close>.\<close>

theorem angle_normalization_range_witness:
  "\<bar>4 :: real\<bar> \<le> absorb_limit \<and> \<bar>4 :: real\<bar> \<le> exact_limit \<and>
   angle_normalization 4 = Some (4 - 2 * pi) \<and> - pi \<le> 4 - 2 * pi \<and> 4 - 2 * pi \<le> pi"
proof -
  have a: "\<bar>4 :: real\<bar> \<le> absorb_limit" by (simp add: absorb_limit_def)
  have e: "\<bar>4 :: real\<bar> \<le> exact_limit" by (simp add: exact_limit_def)
  note t = angle_normalization_range [of 4]
  have "angle_normalization 4 = Some (wrap_angle 4)" using t e by blast
  moreover have "- pi \<le> wrap_angle 4" "wrap_angle 4 \<le> pi" using t by blast+
  ultimately show ?thesis using a e unfolding wrap_angle_4 by simp
qed

text \<open>
  The claim as stated fails in two ways. Both loops compare strictly, so that the angle
  \<open>-\<pi>\<close> is returned as it is: the result is not in the half-open interval that excludes \<open>-\<pi>\<close>.
  And the angle \<open>2\<^sup>5\<^sup>7\<close> is beyond the range in which subtracting \<open>2\<pi>\<close> changes a \<^verbatim>\<open>double\<close>: the
  first loop does not end and there is no result.
\<close>

theorem angle_normalization_half_open_counterexample:
  "angle_normalization (- pi) = Some (- pi) \<and>
   \<not> (- pi < the (angle_normalization (- pi)) \<and> the (angle_normalization (- pi)) \<le> pi) \<and>
   angle_normalization (2 ^ 57) = None"
proof -
  have "norm_down (- pi) = Some (- pi)" by (rule norm_down_id) simp
  moreover have "norm_up (- pi) = Some (- pi)" by (rule norm_up_id) simp
  ultimately have a: "angle_normalization (- pi) = Some (- pi)"
    by (simp add: angle_normalization_def)
  have "absorb_limit < \<bar>2 ^ 57 :: real\<bar>" by (simp add: absorb_limit_def)
  then have b: "angle_normalization (2 ^ 57) = None" by (rule angle_normalization_absorbed)
  show ?thesis using a b by simp
qed

section \<open>The normalized differences and the loops over them\<close>

lemma normalized_diff_Some_length:
  "normalized_diff k a b = Some d \<Longrightarrow> length d = min (length a) (length b)"
  by (auto simp: normalized_diff_def Let_def vec_sub_length split: option.splits)

lemma normalized_diff_Some_nth:
  "normalized_diff k a b = Some d \<Longrightarrow> j < length a \<Longrightarrow> j < length b \<Longrightarrow> j \<noteq> k \<Longrightarrow>
   d ! j = a ! j - b ! j"
  by (auto simp: normalized_diff_def Let_def vec_sub_nth split: option.splits)

lemma normalized_diff_Some_angle:
  "normalized_diff k a b = Some d \<Longrightarrow> k < length a \<Longrightarrow> k < length b \<Longrightarrow>
   angle_normalization (a ! k - b ! k) = Some (d ! k)"
  by (auto simp: normalized_diff_def Let_def vec_sub_nth vec_sub_length split: option.splits)

lemma normalized_diff_exact:
  "k < length a \<Longrightarrow> k < length b \<Longrightarrow> \<bar>a ! k - b ! k\<bar> \<le> exact_limit \<Longrightarrow>
   normalized_diff k a b = Some ((vec_sub a b)[k := wrap_angle (a ! k - b ! k)])"
  by (simp add: normalized_diff_def Let_def vec_sub_nth angle_normalization_exact)

lemma normalized_diff_None_iff:
  "k < length a \<Longrightarrow> k < length b \<Longrightarrow>
   normalized_diff k a b = None \<longleftrightarrow> absorb_limit < \<bar>a ! k - b ! k\<bar>"
  by (simp add: normalized_diff_def Let_def vec_sub_nth angle_normalization_None_iff [symmetric]
      split: option.splits)

lemma normalized_diff_unchanged:
  assumes "k < length a" and "k < length b" and "\<bar>a ! k - b ! k\<bar> \<le> pi"
  shows "normalized_diff k a b = Some (vec_sub a b)"
proof -
  have r: "- pi \<le> a ! k - b ! k" "a ! k - b ! k \<le> pi"
    using assms(3) unfolding abs_le_iff by linarith+
  have "norm_down (a ! k - b ! k) = Some (a ! k - b ! k)" using r(2) by (rule norm_down_id)
  moreover have "norm_up (a ! k - b ! k) = Some (a ! k - b ! k)" using r(1) by (rule norm_up_id)
  ultimately have "angle_normalization (vec_sub a b ! k) = Some (vec_sub a b ! k)"
    using assms(1,2) by (simp add: angle_normalization_def vec_sub_nth)
  then show ?thesis by (simp add: normalized_diff_def Let_def)
qed

lemma predicted_covariance_Some:
  "(\<And>i. i \<in> set is \<Longrightarrow> normalized_diff 3 (X ! i) x = Some (D i)) \<Longrightarrow>
   predicted_covariance w X x is P =
     Some (fold (\<lambda>i M. mat_add M (outer (scal_vec (w ! i) (D i)) (D i))) is P)"
  by (induction "is" arbitrary: P) simp_all

lemma predicted_covariance_None_iff:
  "predicted_covariance w X x is P = None \<longleftrightarrow>
   (\<exists>i \<in> set is. normalized_diff 3 (X ! i) x = None)"
  by (induction "is" arbitrary: P) (auto split: option.splits)

lemma predicted_covariance_the:
  assumes "predicted_covariance w X x is P = Some P'"
  shows "P' = fold (\<lambda>i M. mat_add M (outer (scal_vec (w ! i) (the (normalized_diff 3 (X ! i) x)))
                                       (the (normalized_diff 3 (X ! i) x)))) is P"
proof -
  have "\<not> (\<exists>i \<in> set is. normalized_diff 3 (X ! i) x = None)"
    using assms predicted_covariance_None_iff [of w X x "is" P] by simp
  then have "\<And>i. i \<in> set is \<Longrightarrow>
      normalized_diff 3 (X ! i) x = Some (the (normalized_diff 3 (X ! i) x))"
    by auto
  then have "predicted_covariance w X x is P =
     Some (fold (\<lambda>i M. mat_add M (outer (scal_vec (w ! i) (the (normalized_diff 3 (X ! i) x)))
                                       (the (normalized_diff 3 (X ! i) x)))) is P)"
    by (rule predicted_covariance_Some)
  then show ?thesis using assms by simp
qed

lemma cross_correlation_Some:
  "(\<And>i. i \<in> set is \<Longrightarrow> normalized_diff 3 (X ! i) x = Some (D i)) \<Longrightarrow>
   cross_correlation w X x Z is T =
     Some (fold (\<lambda>i M. mat_add M (outer (scal_vec (w ! i) (D i)) (Z ! i))) is T)"
  by (induction "is" arbitrary: T) simp_all

lemma cross_correlation_None_iff:
  "cross_correlation w X x Z is T = None \<longleftrightarrow>
   (\<exists>i \<in> set is. normalized_diff 3 (X ! i) x = None)"
  by (induction "is" arbitrary: T) (auto split: option.splits)

lemma those_map_Some_iff:
  "those (map f xs) = Some ys \<longleftrightarrow> map f xs = map Some ys"
proof (induction xs arbitrary: ys)
  case Nil
  then show ?case by auto
next
  case (Cons x xs)
  show ?case
  proof (cases "f x")
    case None
    then show ?thesis by auto
  next
    case (Some y)
    show ?thesis
    proof (cases "those (map f xs)")
      case None
      then have "\<And>zs. map f xs \<noteq> map Some zs" using Cons.IH by auto
      then show ?thesis using None Some by (cases ys) auto
    next
      case (Some zs)
      then have m: "map f xs = map Some zs" using Cons.IH by simp
      show ?thesis using \<open>f x = Some y\<close> Some m by (cases ys) (auto simp: Cons.IH)
    qed
  qed
qed

lemma those_map_None_iff:
  "those (map f xs) = None \<longleftrightarrow> (\<exists>x \<in> set xs. f x = None)"
proof (induction xs)
  case Nil
  then show ?case by simp
next
  case (Cons x xs)
  then show ?case by (cases "f x"; cases "those (map f xs)") auto
qed

section \<open>The prediction, coefficient by coefficient\<close>

lemma ctrv_length: "length (ctrv delta_t c) = 5"
  by (simp add: ctrv_def)

lemma predicted_points_nth:
  "i < 2 * n_aug st + 1 \<Longrightarrow>
   predicted_points factor delta_t st ! i =
     ctrv delta_t (augmented_sigma_points (n_aug st) (lambda st) (augmented_mean st)
                     (factor (augmented_covariance st)) ! i)"
  unfolding predicted_points_def by (rule map_upt_nth)

lemma predicted_points_dim:
  "i < 2 * n_aug st + 1 \<Longrightarrow> length (predicted_points factor delta_t st ! i) = 5"
  by (simp only: predicted_points_nth ctrv_length)

lemma Prediction_unfold:
  "Prediction factor delta_t st =
     (case predicted_covariance (weights st) (predicted_points factor delta_t st)
             (weighted_mean (weights st) (predicted_points factor delta_t st)
                (2 * n_aug st + 1) (map (\<lambda>_. 0) (x_vec st)))
             [0..<2 * n_aug st + 1] (map (map (\<lambda>_. 0)) (P_mat st)) of
        None \<Rightarrow> None
      | Some P \<Rightarrow>
          Some (st\<lparr> Xsig_pred := predicted_points factor delta_t st,
                     x_vec := weighted_mean (weights st) (predicted_points factor delta_t st)
                                (2 * n_aug st + 1) (map (\<lambda>_. 0) (x_vec st)),
                     P_mat := P \<rparr>))"
  unfolding Prediction_def Let_def predict_sigma_point_Some those_map_Some option.case
    predicted_points_def ..

lemma predicted_mean_length:
  assumes "length (x_vec st) = 5"
  shows "length (weighted_mean (weights st) (predicted_points factor delta_t st)
                   (2 * n_aug st + 1) (map (\<lambda>_. 0) (x_vec st))) = 5"
proof -
  have l: "length (map (\<lambda>_. 0::real) (x_vec st)) = 5" using assms by simp
  show ?thesis using predicted_points_dim l by (rule weighted_mean_length)
qed

lemma predicted_mean_nth:
  assumes "length (x_vec st) = 5" and "k < 5"
  shows "weighted_mean (weights st) (predicted_points factor delta_t st)
           (2 * n_aug st + 1) (map (\<lambda>_. 0) (x_vec st)) ! k =
         (\<Sum>i<2 * n_aug st + 1. weights st ! i * predicted_points factor delta_t st ! i ! k)"
proof -
  have l: "length (map (\<lambda>_. 0::real) (x_vec st)) = 5" using assms by simp
  have "weighted_mean (weights st) (predicted_points factor delta_t st)
           (2 * n_aug st + 1) (map (\<lambda>_. 0) (x_vec st)) ! k =
         map (\<lambda>_. 0) (x_vec st) ! k +
         (\<Sum>i<2 * n_aug st + 1. weights st ! i * predicted_points factor delta_t st ! i ! k)"
    using predicted_points_dim l assms(2) by (rule weighted_mean_nth)
  then show ?thesis using assms by simp
qed

lemma zero_fill_dims: "dims r c P \<Longrightarrow> dims r c (map (map (\<lambda>_. 0)) P)"
  by (simp add: dims_def list_all_length)

lemma zero_fill_nth: "dims r c P \<Longrightarrow> a < r \<Longrightarrow> b < c \<Longrightarrow> map (map (\<lambda>_. 0)) P ! a ! b = 0"
  by (simp add: dims_def list_all_length)

lemma predicted_covariance_dims:
  assumes "\<And>i. i < n \<Longrightarrow> length (X ! i) = 5" and "length x = 5" and "dims 5 5 P0"
    and "predicted_covariance w X x [0..<n] P0 = Some P"
  shows "dims 5 5 P"
proof -
  let ?d = "\<lambda>i. the (normalized_diff 3 (X ! i) x)"
  let ?F = "\<lambda>i. outer (scal_vec (w ! i) (?d i)) (?d i)"
  have S: "normalized_diff 3 (X ! i) x = Some (?d i)" if "i < n" for i
    using assms(4) that predicted_covariance_None_iff [of w X x "[0..<n]" P0] by auto
  have l: "length (?d i) = 5" if "i < n" for i
    using normalized_diff_Some_length [OF S [OF that]] assms(1) [OF that] assms(2) by simp
  have F: "\<And>i. i < n \<Longrightarrow> dims 5 5 (?F i)"
    by (intro outer_dims) (simp_all add: scal_vec_length l)
  have "P = fold (\<lambda>i M. mat_add M (?F i)) [0..<n] P0"
    using assms(4) by (rule predicted_covariance_the)
  then show ?thesis using fold_mat_add_dims [of n 5 5 ?F P0, OF F assms(3)] by simp
qed

lemma predicted_covariance_nth:
  assumes "\<And>i. i < n \<Longrightarrow> length (X ! i) = 5" and "length x = 5" and "dims 5 5 P0"
    and "a < 5" and "b < 5"
    and "predicted_covariance w X x [0..<n] P0 = Some P"
  shows "P ! a ! b =
           P0 ! a ! b + (\<Sum>i<n. w ! i * the (normalized_diff 3 (X ! i) x) ! a
                                       * the (normalized_diff 3 (X ! i) x) ! b)"
proof -
  let ?d = "\<lambda>i. the (normalized_diff 3 (X ! i) x)"
  let ?F = "\<lambda>i. outer (scal_vec (w ! i) (?d i)) (?d i)"
  have S: "normalized_diff 3 (X ! i) x = Some (?d i)" if "i < n" for i
    using assms(6) that predicted_covariance_None_iff [of w X x "[0..<n]" P0] by auto
  have l: "length (?d i) = 5" if "i < n" for i
    using normalized_diff_Some_length [OF S [OF that]] assms(1) [OF that] assms(2) by simp
  have F: "\<And>i. i < n \<Longrightarrow> dims 5 5 (?F i)"
    by (intro outer_dims) (simp_all add: scal_vec_length l)
  have "P = fold (\<lambda>i M. mat_add M (?F i)) [0..<n] P0"
    using assms(6) by (rule predicted_covariance_the)
  then have "P ! a ! b = P0 ! a ! b + (\<Sum>i<n. ?F i ! a ! b)"
    using fold_mat_add_nth [of n 5 5 ?F P0 a b, OF F assms(3,4,5)] by simp
  also have "(\<Sum>i<n. ?F i ! a ! b) = (\<Sum>i<n. w ! i * ?d i ! a * ?d i ! b)"
    using assms(4,5)
    by (intro sum.cong refl) (simp add: outer_nth scal_vec_nth scal_vec_length l)
  finally show ?thesis .
qed

lemma predicted_covariance_returns:
  assumes "\<And>i. i < n \<Longrightarrow> length (X ! i) = 5" and "length x = 5"
    and "\<And>i. i < n \<Longrightarrow> \<bar>X ! i ! 3 - x ! 3\<bar> \<le> absorb_limit"
  shows "\<exists>P. predicted_covariance w X x [0..<n] P0 = Some P"
proof -
  have "normalized_diff 3 (X ! i) x \<noteq> None" if "i < n" for i
    using assms(1) [OF that] assms(2) assms(3) [OF that]
    by (simp add: normalized_diff_None_iff)
  then have "predicted_covariance w X x [0..<n] P0 \<noteq> None"
    unfolding predicted_covariance_None_iff by auto
  then show ?thesis by auto
qed

lemma symmetric_matI:
  "length M = n \<Longrightarrow> (\<And>i j. i < n \<Longrightarrow> j < n \<Longrightarrow> M ! i ! j = M ! j ! i) \<Longrightarrow> symmetric_mat M"
  by (simp add: symmetric_mat_def)

lemma symmetric_matD:
  "symmetric_mat M \<Longrightarrow> i < length M \<Longrightarrow> j < length M \<Longrightarrow> M ! i ! j = M ! j ! i"
  by (simp add: symmetric_mat_def)

lemma Prediction_SomeD:
  assumes "Prediction factor delta_t st = Some st'"
  shows "predicted_covariance (weights st) (predicted_points factor delta_t st)
             (weighted_mean (weights st) (predicted_points factor delta_t st)
                (2 * n_aug st + 1) (map (\<lambda>_. 0) (x_vec st)))
             [0..<2 * n_aug st + 1] (map (map (\<lambda>_. 0)) (P_mat st)) = Some (P_mat st')"
    and "x_vec st' = weighted_mean (weights st) (predicted_points factor delta_t st)
                (2 * n_aug st + 1) (map (\<lambda>_. 0) (x_vec st))"
    and "Xsig_pred st' = predicted_points factor delta_t st"
  using assms unfolding Prediction_unfold by (auto split: option.splits)

lemma Prediction_symmetric:
  assumes "length (x_vec st) = 5" and "dims 5 5 (P_mat st)"
    and "Prediction factor delta_t st = Some st'"
  shows "symmetric_mat (P_mat st') \<and> dims 5 5 (P_mat st') \<and> length (x_vec st') = 5"
proof -
  let ?n = "2 * n_aug st + 1"
  let ?X = "predicted_points factor delta_t st"
  let ?x = "weighted_mean (weights st) ?X ?n (map (\<lambda>_. 0) (x_vec st))"
  let ?P = "P_mat st'"
  have pc: "predicted_covariance (weights st) ?X ?x [0..<?n] (map (map (\<lambda>_. 0)) (P_mat st))
            = Some ?P"
    using assms(3) by (rule Prediction_SomeD)
  have x': "x_vec st' = ?x" using assms(3) by (rule Prediction_SomeD)
  have xl: "length ?x = 5" using assms(1) by (rule predicted_mean_length)
  have z: "dims 5 5 (map (map (\<lambda>_. 0)) (P_mat st))" using assms(2) by (rule zero_fill_dims)
  have d: "dims 5 5 ?P" using predicted_points_dim xl z pc by (rule predicted_covariance_dims)
  have s: "?P ! a ! b = ?P ! b ! a" if a: "a < 5" and b: "b < 5" for a b
  proof -
    let ?d = "\<lambda>i. the (normalized_diff 3 (?X ! i) ?x)"
    have e1: "?P ! a ! b = map (map (\<lambda>_. 0)) (P_mat st) ! a ! b +
        (\<Sum>i<?n. weights st ! i * ?d i ! a * ?d i ! b)"
      using predicted_points_dim xl z a b pc by (rule predicted_covariance_nth)
    have e2: "?P ! b ! a = map (map (\<lambda>_. 0)) (P_mat st) ! b ! a +
        (\<Sum>i<?n. weights st ! i * ?d i ! b * ?d i ! a)"
      using predicted_points_dim xl z b a pc by (rule predicted_covariance_nth)
    have z1: "map (map (\<lambda>_. 0)) (P_mat st) ! a ! b = 0"
      using assms(2) a b by (rule zero_fill_nth)
    have z2: "map (map (\<lambda>_. 0)) (P_mat st) ! b ! a = 0"
      using assms(2) b a by (rule zero_fill_nth)
    have sw: "(\<Sum>i<?n. weights st ! i * ?d i ! a * ?d i ! b)
        = (\<Sum>i<?n. weights st ! i * ?d i ! b * ?d i ! a)"
      by (intro sum.cong refl) (simp only: ac_simps)
    show ?thesis unfolding e1 e2 z1 z2 sw ..
  qed
  have "symmetric_mat ?P"
    using dims_length [OF d] s by (rule symmetric_matI)
  then show ?thesis using d xl by (simp add: x')
qed

lemma Prediction_returns:
  assumes "length (x_vec st) = 5"
    and "\<And>i. i < 2 * n_aug st + 1 \<Longrightarrow>
           \<bar>predicted_points factor delta_t st ! i ! 3
             - weighted_mean (weights st) (predicted_points factor delta_t st)
                 (2 * n_aug st + 1) (map (\<lambda>_. 0) (x_vec st)) ! 3\<bar> \<le> absorb_limit"
  shows "\<exists>st'. Prediction factor delta_t st = Some st'"
proof -
  let ?n = "2 * n_aug st + 1"
  let ?X = "predicted_points factor delta_t st"
  let ?x = "weighted_mean (weights st) ?X ?n (map (\<lambda>_. 0) (x_vec st))"
  have xl: "length ?x = 5" using assms(1) by (rule predicted_mean_length)
  obtain P where "predicted_covariance (weights st) ?X ?x [0..<?n]
                    (map (map (\<lambda>_. 0)) (P_mat st)) = Some P"
    using predicted_covariance_returns [of ?n ?X ?x, OF predicted_points_dim xl assms(2)]
    by blast
  then show ?thesis unfolding Prediction_unfold by simp
qed

section \<open>The weights\<close>

lemma fold_update_length:
  "length (fold (\<lambda>i w. w[i := c]) is w) = length w"
  by (induction "is" arbitrary: w) simp_all

lemma fold_update_nth:
  "j < length w \<Longrightarrow> fold (\<lambda>i w. w[i := c]) [a..<b] w ! j =
     (if a \<le> j \<and> j < b then c else w ! j)"
proof (induction b)
  case 0
  then show ?case by simp
next
  case (Suc b)
  show ?case
  proof (cases "a \<le> b")
    case True
    then show ?thesis using Suc
      by (cases "j = b") (simp_all add: fold_update_length)
  next
    case False
    then show ?thesis by auto
  qed
qed

lemma init_weights_eq:
  "init_weights n l = (l / (l + real n)) # replicate (2 * n) (0.5 / (real n + l))"
proof (rule nth_equalityI)
  show "length (init_weights n l) = length ((l / (l + real n)) # replicate (2 * n) (0.5 / (real n + l)))"
    by (simp add: init_weights_def fold_update_length zero_vec_def)
next
  fix i assume "i < length (init_weights n l)"
  then have i: "i < 2 * n + 1"
    by (simp add: init_weights_def fold_update_length zero_vec_def)
  have "init_weights n l ! i =
          (if 1 \<le> i \<and> i < 2 * n + 1 then 0.5 / (real n + l)
           else (zero_vec (2 * n + 1))[0 := l / (l + real n)] ! i)"
    unfolding init_weights_def using i by (intro fold_update_nth) (simp add: zero_vec_def)
  then show "init_weights n l ! i = ((l / (l + real n)) # replicate (2 * n) (0.5 / (real n + l))) ! i"
    using i by (cases i) (simp_all add: zero_vec_def)
qed

lemma init_weights_sum:
  assumes "l + real n \<noteq> 0"
  shows "sum_list (init_weights n l) = 1"
proof -
  have "2 * l + 2 * real n \<noteq> 0" using assms by simp
  then have h: "real (2 * n) * (0.5 / (real n + l)) = real n / (l + real n)"
    using assms by (simp add: field_simps)
  have "sum_list (init_weights n l) = l / (l + real n) + real (2 * n) * (0.5 / (real n + l))"
    unfolding init_weights_eq by (simp add: sum_list_replicate)
  also have "\<dots> = l / (l + real n) + real n / (l + real n)"
    by (simp only: h)
  also have "\<dots> = (l + real n) / (l + real n)"
    by (simp only: add_divide_distrib)
  also have "\<dots> = 1" using assms by simp
  finally show ?thesis .
qed

text \<open>
  Claim C7. The weights that the constructor computes: \<open>n_aug = 7\<close> and \<open>\<lambda> = 3 - n_aug\<close>,
  there are \<open>2 n_aug + 1\<close> weights, the first is \<open>\<lambda> / (\<lambda> + n_aug)\<close>, each of the others is
  \<open>1 / (2 (\<lambda> + n_aug))\<close>, and in exact arithmetic they sum to \<open>1\<close>.
\<close>

theorem weights_constructor:
  "n_aug UKF_init = 7 \<and> lambda UKF_init = 3 - real (n_aug UKF_init) \<and>
   length (weights UKF_init) = 2 * n_aug UKF_init + 1 \<and>
   weights UKF_init ! 0 = lambda UKF_init / (lambda UKF_init + real (n_aug UKF_init)) \<and>
   (\<forall>i \<in> {1 .. 2 * n_aug UKF_init}.
      weights UKF_init ! i = 1 / (2 * (lambda UKF_init + real (n_aug UKF_init)))) \<and>
   sum_list (weights UKF_init) = 1"
proof -
  have w: "weights UKF_init = init_weights 7 (- 4)" by (simp add: UKF_init_def)
  have na: "n_aug UKF_init = 7" by (simp add: UKF_init_def)
  have la: "lambda UKF_init = - 4" by (simp add: UKF_init_def)
  have s: "sum_list (init_weights 7 (- 4)) = 1"
    by (rule init_weights_sum) simp
  have len: "length (init_weights 7 (- 4)) = 15" by (simp add: init_weights_eq)
  have z: "init_weights 7 (- 4) ! 0 = - 4 / 3" by (simp add: init_weights_eq)
  have n: "init_weights 7 (- 4) ! i = 1 / 6" if "i \<in> {1 .. 14}" for i :: nat
  proof -
    from that obtain k where k: "i = Suc k" "k < 14" by (cases i) auto
    then show ?thesis by (simp add: init_weights_eq)
  qed
  have n': "\<forall>i \<in> {1 .. 2 * 7}. init_weights 7 (- 4) ! i = 1 / (2 * (- 4 + real (7::nat)))"
  proof
    fix i :: nat assume "i \<in> {1 .. 2 * 7}"
    then have "i \<in> {1 .. 14}" by simp
    then show "init_weights 7 (- 4) ! i = 1 / (2 * (- 4 + real (7::nat)))"
      using n by simp
  qed
  have z': "init_weights 7 (- 4) ! 0 = - 4 / (- 4 + real (7::nat))" using z by simp
  have l': "(- 4 :: real) = 3 - real (7::nat)" by simp
  have len': "length (init_weights 7 (- 4)) = 2 * 7 + 1" using len by simp
  show ?thesis
    unfolding w na la
    by (intro conjI) (rule refl, rule l', rule len', rule z', rule n', rule s)
qed

theorem weights_constructor_witness:
  "(3::nat) \<in> {1 .. 2 * n_aug UKF_init} \<and>
   weights UKF_init ! 3 = 1 / (2 * (lambda UKF_init + real (n_aug UKF_init)))"
proof -
  have m: "(3::nat) \<in> {1 .. 2 * n_aug UKF_init}" by (simp add: UKF_init_def)
  have "\<forall>i \<in> {1 .. 2 * n_aug UKF_init}.
      weights UKF_init ! i = 1 / (2 * (lambda UKF_init + real (n_aug UKF_init)))"
    using weights_constructor by (elim conjE)
  then have "weights UKF_init ! 3 = 1 / (2 * (lambda UKF_init + real (n_aug UKF_init)))"
    using m by (rule bspec)
  with m show ?thesis by (rule conjI)
qed

section \<open>The first measurement\<close>

text \<open>
  Claim C8. On an uninitialized filter, \<open>ProcessMeasurement\<close> overwrites the coefficients 0 and
  1 of the mean (from a radar measurement with \<open>range \<sqdot> cos bearing\<close> and \<open>range \<sqdot> sin bearing\<close>,
  from a laser measurement with its two components), sets the initialized flag and records
  the time stamp; every other field of the filter, the other three coefficients of the mean
  and the covariance among them, is as before, and neither prediction nor update runs. On an
  initialized filter it never does so again: it predicts and then updates. This holds
  whatever the factorisation of the prediction returns.
\<close>

theorem first_measurement_initializes:
  "(\<not> is_initialized st \<and> 2 \<le> length (raw_measurements m) \<longrightarrow>
      ProcessMeasurement factor st m =
        Some (st\<lparr> x_vec :=
                     (case sensor_type m of
                        RADAR \<Rightarrow> (x_vec st)
                                   [0 := raw_measurements m ! 0 * cos (raw_measurements m ! 1),
                                    1 := raw_measurements m ! 0 * sin (raw_measurements m ! 1)]
                      | LASER \<Rightarrow> (x_vec st)
                                   [0 := raw_measurements m ! 0,
                                    1 := raw_measurements m ! 1]),
                   is_initialized := True,
                   time_us := timestamp m \<rparr>)) \<and>
   (is_initialized st \<longrightarrow>
      ProcessMeasurement factor st m =
        (case Prediction factor (real_of_int (timestamp m - time_us st) / 1000000)
                (st\<lparr> time_us := timestamp m \<rparr>) of
           None \<Rightarrow> None
         | Some st2 \<Rightarrow>
             (case sensor_type m of
                RADAR \<Rightarrow> UpdateRadar st2 m
              | LASER \<Rightarrow> UpdateLidar st2 m)))"
  by (cases "sensor_type m") (simp_all add: ProcessMeasurement_def Let_def)

text \<open>Scenarios A and B of the specification, on the constructor's state.\<close>

theorem first_measurement_initializes_witness:
  "\<not> is_initialized UKF_init \<and>
   2 \<le> length (raw_measurements \<lparr> timestamp = 7, sensor_type = LASER, raw_measurements = [1, 2] \<rparr>) \<and>
   ProcessMeasurement llt UKF_init \<lparr> timestamp = 7, sensor_type = LASER, raw_measurements = [1, 2] \<rparr> =
     Some (UKF_init \<lparr> x_vec := [1, 2, 9, 0, 0], is_initialized := True, time_us := 7 \<rparr>) \<and>
   ProcessMeasurement llt UKF_init \<lparr> timestamp = 7, sensor_type = RADAR, raw_measurements = [5, 0, 1] \<rparr> =
     Some (UKF_init \<lparr> x_vec := [5, 0, 9, 0, 0], is_initialized := True, time_us := 7 \<rparr>)"
proof -
  have a: "\<not> is_initialized UKF_init" by (simp add: UKF_init_def)
  have x: "x_vec UKF_init = [1, 1, 9, 0, 0]" by (simp add: UKF_init_def)
  show ?thesis
    using a
      first_measurement_initializes [where factor = llt and st = UKF_init and
        m = "\<lparr> timestamp = 7, sensor_type = LASER, raw_measurements = [1, 2] \<rparr>"]
      first_measurement_initializes [where factor = llt and st = UKF_init and
        m = "\<lparr> timestamp = 7, sensor_type = RADAR, raw_measurements = [5, 0, 1] \<rparr>"]
    by (simp add: x)
qed

section \<open>No division by zero\<close>

text \<open>
  Claim C9. The propagation of a sigma point never divides by zero: it divides by the turn
  rate only when its absolute value exceeds \<open>0.001\<close> (and then the divisor is not zero), and
  otherwise uses the straight-line formula; the radar measurement model never divides by
  zero either, its divisor being the range clamped to at least \<open>0.001\<close>. So the prediction as
  a whole, whatever its factorisation returns, never fails on a division: it has no result
  only where the normalization loop of its covariance does not end.
\<close>

theorem no_division_by_zero:
  "predict_sigma_point delta_t c = Some (ctrv delta_t c) \<and>
   (\<bar>c ! 4\<bar> \<le> 0.001 \<longrightarrow>
      ctrv delta_t c ! 0 = c ! 0 + c ! 2 * delta_t * cos (c ! 3)
                             + 0.5 * c ! 5 * delta_t * delta_t * cos (c ! 3) \<and>
      ctrv delta_t c ! 1 = c ! 1 + c ! 2 * delta_t * sin (c ! 3)
                             + 0.5 * c ! 5 * delta_t * delta_t * sin (c ! 3)) \<and>
   (\<bar>c ! 4\<bar> > 0.001 \<longrightarrow>
      checked_div (c ! 2) (c ! 4) = Some (c ! 2 / c ! 4) \<and>
      ctrv delta_t c ! 0 = c ! 0 + c ! 2 / c ! 4 * (sin (c ! 3 + c ! 4 * delta_t) - sin (c ! 3))
                             + 0.5 * c ! 5 * delta_t * delta_t * cos (c ! 3) \<and>
      ctrv delta_t c ! 1 = c ! 1 + c ! 2 / c ! 4 * (cos (c ! 3) - cos (c ! 3 + c ! 4 * delta_t))
                             + 0.5 * c ! 5 * delta_t * delta_t * sin (c ! 3)) \<and>
   radar_measurement_point c = Some (radar_model c) \<and>
   radar_model c ! 0 = radar_range c \<and>
   radar_model c ! 2 =
     (c ! 0 * (cos (c ! 3) * c ! 2) + c ! 1 * (sin (c ! 3) * c ! 2)) / radar_range c \<and>
   0.001 \<le> radar_range c \<and>
   (Prediction factor delta_t st = None) =
     (predicted_covariance (weights st) (predicted_points factor delta_t st)
        (weighted_mean (weights st) (predicted_points factor delta_t st)
           (2 * n_aug st + 1) (map (\<lambda>_. 0) (x_vec st)))
        [0..<2 * n_aug st + 1] (map (map (\<lambda>_. 0)) (P_mat st)) = None)"
proof -
  have "(Prediction factor delta_t st = None) =
     (predicted_covariance (weights st) (predicted_points factor delta_t st)
        (weighted_mean (weights st) (predicted_points factor delta_t st)
           (2 * n_aug st + 1) (map (\<lambda>_. 0) (x_vec st)))
        [0..<2 * n_aug st + 1] (map (map (\<lambda>_. 0)) (P_mat st)) = None)"
    unfolding Prediction_unfold by (simp split: option.splits)
  moreover have "\<bar>c ! 4\<bar> > 0.001 \<longrightarrow> checked_div (c ! 2) (c ! 4) = Some (c ! 2 / c ! 4)"
    by (auto simp: checked_div_def)
  moreover have "0.001 \<le> radar_range c"
    by (rule radar_range_ge)
  ultimately show ?thesis
    by (simp add: predict_sigma_point_Some radar_measurement_point_Some
        ctrv_def radar_model_def)
qed

theorem no_division_by_zero_witness:
  "\<bar>[0, 0, 2, 0, 0, 0, 0 :: real] ! 4\<bar> \<le> 0.001 \<and>
   ctrv 1 [0, 0, 2, 0, 0, 0, 0] ! 0 = 2 \<and> ctrv 1 [0, 0, 2, 0, 0, 0, 0] ! 1 = 0 \<and>
   \<bar>[0, 0, 2, 0, 1, 0, 0 :: real] ! 4\<bar> > 0.001 \<and>
   checked_div ([0, 0, 2, 0, 1, 0, 0] ! 2) ([0, 0, 2, 0, 1, 0, 0] ! 4) = Some 2 \<and>
   ctrv 0 [0, 0, 2, 0, 1, 0, 0] ! 0 = 0"
  using no_division_by_zero [where delta_t = 1 and c = "[0, 0, 2, 0, 0, 0, 0]" and st = UKF_init and factor = llt]
    no_division_by_zero [where delta_t = 0 and c = "[0, 0, 2, 0, 1, 0, 0]" and st = UKF_init and factor = llt]
  by simp

section \<open>The two sensor flags\<close>

lemma augmented_mean_flags: "augmented_mean (set_flags a b st) = augmented_mean st"
  by (simp add: augmented_mean_def set_flags_def cong: if_cong)

lemma augmented_covariance_flags:
  "augmented_covariance (set_flags a b st) = augmented_covariance st"
  by (simp add: augmented_covariance_def set_flags_def cong: if_cong)

lemma Prediction_flags:
  "Prediction factor dt (set_flags a b st) =
     map_option (set_flags a b) (Prediction factor dt st)"
proof -
  have s: "n_aug (set_flags a b st) = n_aug st" "lambda (set_flags a b st) = lambda st"
    "weights (set_flags a b st) = weights st" "x_vec (set_flags a b st) = x_vec st"
    "P_mat (set_flags a b st) = P_mat st"
    by (simp_all add: set_flags_def)
  have p: "predicted_points factor dt (set_flags a b st) = predicted_points factor dt st"
    unfolding predicted_points_def augmented_mean_flags augmented_covariance_flags s ..
  show ?thesis
    unfolding Prediction_unfold p s
    by (simp add: set_flags_def split: option.splits)
qed

lemma UpdateLidar_flags:
  "UpdateLidar (set_flags a b st) m = map_option (set_flags a b) (UpdateLidar st m)"
  by (simp add: UpdateLidar_def set_flags_def Let_def split: option.splits)

lemma UpdateRadar_flags:
  "UpdateRadar (set_flags a b st) m = map_option (set_flags a b) (UpdateRadar st m)"
  by (simp add: UpdateRadar_def set_flags_def Let_def split: option.splits)

lemma ProcessMeasurement_flags:
  "ProcessMeasurement factor (set_flags a b st) m =
     map_option (set_flags a b) (ProcessMeasurement factor st m)"
proof (cases "is_initialized st")
  case False
  then show ?thesis
    by (cases "sensor_type m") (simp_all add: ProcessMeasurement_def set_flags_def Let_def)
next
  case True
  have t: "(set_flags a b st)\<lparr> time_us := t \<rparr> = set_flags a b (st\<lparr> time_us := t \<rparr>)" for t
    by (simp add: set_flags_def)
  have i: "is_initialized (set_flags a b st)" "time_us (set_flags a b st) = time_us st"
    using True by (simp_all add: set_flags_def)
  show ?thesis
    unfolding ProcessMeasurement_def Let_def t
    using True i
    by (cases "sensor_type m")
       (simp_all add: Prediction_flags UpdateLidar_flags UpdateRadar_flags split: option.splits)
qed

lemma ProcessMeasurements_flags:
  "ProcessMeasurements factor (set_flags a b st) ms =
     map_option (set_flags a b) (ProcessMeasurements factor st ms)"
proof (induction ms arbitrary: st)
  case Nil
  show ?case by simp
next
  case (Cons m ms)
  show ?case
    by (cases "ProcessMeasurement factor st m") (simp_all add: ProcessMeasurement_flags Cons)
qed

lemma outputs_flags: "outputs (set_flags a b st) = outputs st"
  by (simp add: outputs_def set_flags_def)

text \<open>
  Claim C10. A run of \<open>ProcessMeasurement\<close> over any sequence of measurements, started with
  the flags \<open>use_laser\<close> and \<open>use_radar\<close> set to any two values, ends in the same error or in the
  same state (the flags apart) as the run started with the flags as they were: mean,
  covariance, both NIS values and the recorded time are equal. The flags are never read, and
  no measurement is skipped on their account. This holds whatever the factorisation of the
  prediction returns.
\<close>

theorem flags_never_consulted:
  "ProcessMeasurements factor (st\<lparr> use_laser := a, use_radar := b \<rparr>) ms =
     map_option (\<lambda>s. s\<lparr> use_laser := a, use_radar := b \<rparr>) (ProcessMeasurements factor st ms) \<and>
   map_option outputs (ProcessMeasurements factor (st\<lparr> use_laser := a, use_radar := b \<rparr>) ms) =
     map_option outputs (ProcessMeasurements factor st ms)"
proof -
  have f: "(\<lambda>s. s\<lparr> use_laser := a, use_radar := b \<rparr>) = set_flags a b"
    by (rule ext) (simp add: set_flags_def)
  have g: "st\<lparr> use_laser := a, use_radar := b \<rparr> = set_flags a b st"
    by (simp add: set_flags_def)
  have "map_option outputs (map_option (set_flags a b) r) = map_option outputs r" for r
    by (cases r) (simp_all add: outputs_flags)
  then show ?thesis
    unfolding f g by (simp add: ProcessMeasurements_flags)
qed

theorem flags_never_consulted_witness:
  "map_option outputs
     (ProcessMeasurements llt (UKF_init\<lparr> use_laser := False, use_radar := False \<rparr>)
        [\<lparr> timestamp = 7, sensor_type = LASER, raw_measurements = [1, 2] \<rparr>]) =
   map_option outputs
     (ProcessMeasurements llt UKF_init
        [\<lparr> timestamp = 7, sensor_type = LASER, raw_measurements = [1, 2] \<rparr>])"
  by (rule conjunct2 [OF flags_never_consulted [where factor = llt and st = UKF_init and a = False and b = False
      and ms = "[\<lparr> timestamp = 7, sensor_type = LASER, raw_measurements = [1, 2] \<rparr>]"]])

section \<open>The lidar update\<close>

lemma inverse_mat_2:
  "inverse_mat [[a, b], [c, d]] =
     (if a * d - b * c = 0 then None
      else Some [[d / (a * d - b * c), - b / (a * d - b * c)],
                 [- c / (a * d - b * c), a / (a * d - b * c)]])"
  by (simp add: inverse_mat_def dims_def Let_def)

lemma inverse_mat_2_right:
  assumes "inverse_mat [[a, b], [c, d]] = Some Si"
  shows "mat_mul [[a, b], [c, d]] Si = identity_mat 2 \<and> mat_mul Si [[a, b], [c, d]] = identity_mat 2"
proof -
  have nz: "a * d - b * c \<noteq> 0" using assms by (auto simp: inverse_mat_2 split: if_splits)
  then have Si: "Si = [[d / (a * d - b * c), - b / (a * d - b * c)],
                 [- c / (a * d - b * c), a / (a * d - b * c)]]"
    using assms by (simp add: inverse_mat_2)
  have i: "identity_mat 2 = [[1, 0], [0, 1]]"
    by (simp add: identity_mat_def numeral_2_eq_2)
  have n: "a * d / (a * d - b * c) - b * c / (a * d - b * c) = 1"
    using nz by (simp add: diff_divide_distrib [symmetric])
  have n': "d * a / (a * d - b * c) - b * c / (a * d - b * c) = 1"
    using n by (simp add: mult.commute)
  have n'': "a * d / (a * d - b * c) - c * b / (a * d - b * c) = 1"
    using n by (simp add: mult.commute)
  show ?thesis
    unfolding Si i
    by (simp add: mat_defs n n' n'' mult.commute)
qed

lemma inverse_mat_2_shape:
  assumes "inverse_mat [[a, b], [c, d]] = Some Si"
  obtains s00 s01 s10 s11 where "Si = [[s00, s01], [s10, s11]]"
  using assms by (auto simp: inverse_mat_2 split: if_splits)

lemma upt5: "[0..<5] = [0, 1, 2, 3, 4]"
  by (simp add: upt_rec)

lemma lidar_covariance_update:
  fixes P K :: mat
  assumes P_def: "P = [[p00, p01, p02, p03, p04], [p10, p11, p12, p13, p14], [p20, p21, p22, p23, p24], [p30, p31, p32, p33, p34], [p40, p41, p42, p43, p44]]"
    and K_def: "K = [[k00, k01], [k10, k11], [k20, k21], [k30, k31], [k40, k41]]"
  shows "mat_mul (mat_sub (identity_mat 5) (mat_mul K H_laser)) P =
           map (\<lambda>i. map (\<lambda>j. P ! i ! j - (K ! i ! 0 * P ! 0 ! j + K ! i ! 1 * P ! 1 ! j))
             [0..<5]) [0..<5]"
  unfolding P_def K_def upt5
  by (simp add: mat_defs H_laser_def upt5 algebra_simps)

lemma lidar_mean_update:
  fixes x y :: vec and K :: mat
  assumes x_def: "x = [x0, x1, x2, x3, x4]"
    and K_def: "K = [[k00, k01], [k10, k11], [k20, k21], [k30, k31], [k40, k41]]"
    and y_def: "y = [y0, y1]"
  shows "vec_add x (mat_vec K y) =
           map (\<lambda>i. x ! i + (K ! i ! 0 * y ! 0 + K ! i ! 1 * y ! 1)) [0..<5]"
  unfolding x_def K_def y_def upt5
  by (simp add: mat_defs)

lemma lidar_quadratic_form:
  "quadratic_form [y0, y1] [[s00, s01], [s10, s11]] =
     y0 * (s00 * y0 + s01 * y1) + y1 * (s10 * y0 + s11 * y1)"
  by (simp add: quadratic_form_def mat_defs algebra_simps)

lemma UpdateLidar_eq_closed_form:
  assumes "n_x st = 5" and "length (x_vec st) = 5" and "dims 5 5 (P_mat st)"
    and "length (raw_measurements m) = 2"
  shows "UpdateLidar st m = lidar_closed_form st (raw_measurements m)"
proof -
  obtain x0 x1 x2 x3 x4 where x: "x_vec st = [x0, x1, x2, x3, x4]"
    using list5 [OF assms(2)] by blast
  obtain z0 z1 where z: "raw_measurements m = [z0, z1]"
    using list2 [OF assms(4)] by blast
  obtain p00 p01 p02 p03 p04 p10 p11 p12 p13 p14 p20 p21 p22 p23 p24
          p30 p31 p32 p33 p34 p40 p41 p42 p43 p44
    where P: "P_mat st = [[p00, p01, p02, p03, p04], [p10, p11, p12, p13, p14],
              [p20, p21, p22, p23, p24], [p30, p31, p32, p33, p34],
              [p40, p41, p42, p43, p44]]"
    using assms(3) by (rule dims55)
  have S: "mat_add (mat_mul (mat_mul H_laser (P_mat st)) (transpose_mat H_laser))
             [[std_laspx st * std_laspx st, 0], [0, std_laspy st * std_laspy st]]
           = [[p00 + (std_laspx st)\<^sup>2, p01], [p10, p11 + (std_laspy st)\<^sup>2]]"
    unfolding P by (simp add: mat_defs H_laser_def power2_eq_square)
  have S': "lidar_innovation_covariance st
           = [[p00 + (std_laspx st)\<^sup>2, p01], [p10, p11 + (std_laspy st)\<^sup>2]]"
    unfolding lidar_innovation_covariance_def P by simp
  show ?thesis
  proof (cases "inverse_mat [[p00 + (std_laspx st)\<^sup>2, p01], [p10, p11 + (std_laspy st)\<^sup>2]]")
    case None
    then show ?thesis
      unfolding UpdateLidar_def lidar_closed_form_def Let_def S S'
      by (simp add: assms)
  next
    case (Some Si)
    then obtain s00 s01 s10 s11 where Si: "Si = [[s00, s01], [s10, s11]]"
      by (rule inverse_mat_2_shape)
    have y: "vec_sub (raw_measurements m) (mat_vec H_laser (x_vec st)) = [z0 - x0, z1 - x1]"
      unfolding x z by (simp add: mat_defs H_laser_def)
    have y': "lidar_innovation (x_vec st) (raw_measurements m) = [z0 - x0, z1 - x1]"
      unfolding x z by (simp add: lidar_innovation_def)
    have K: "mat_mul (mat_mul (P_mat st) (transpose_mat H_laser)) Si =
             [[p00 * s00 + p01 * s10, p00 * s01 + p01 * s11],
              [p10 * s00 + p11 * s10, p10 * s01 + p11 * s11],
              [p20 * s00 + p21 * s10, p20 * s01 + p21 * s11],
              [p30 * s00 + p31 * s10, p30 * s01 + p31 * s11],
              [p40 * s00 + p41 * s10, p40 * s01 + p41 * s11]]"
      unfolding P Si by (simp add: mat_defs H_laser_def)
    have K': "lidar_gain (P_mat st) Si =
             [[p00 * s00 + p01 * s10, p00 * s01 + p01 * s11],
              [p10 * s00 + p11 * s10, p10 * s01 + p11 * s11],
              [p20 * s00 + p21 * s10, p20 * s01 + p21 * s11],
              [p30 * s00 + p31 * s10, p30 * s01 + p31 * s11],
              [p40 * s00 + p41 * s10, p40 * s01 + p41 * s11]]"
      unfolding P Si lidar_gain_def upt5 by simp
    define k00 where "k00 = p00 * s00 + p01 * s10"
    define k01 where "k01 = p00 * s01 + p01 * s11"
    define k10 where "k10 = p10 * s00 + p11 * s10"
    define k11 where "k11 = p10 * s01 + p11 * s11"
    define k20 where "k20 = p20 * s00 + p21 * s10"
    define k21 where "k21 = p20 * s01 + p21 * s11"
    define k30 where "k30 = p30 * s00 + p31 * s10"
    define k31 where "k31 = p30 * s01 + p31 * s11"
    define k40 where "k40 = p40 * s00 + p41 * s10"
    define k41 where "k41 = p40 * s01 + p41 * s11"
    note kd = k00_def [symmetric] k01_def [symmetric] k10_def [symmetric] k11_def [symmetric]
      k20_def [symmetric] k21_def [symmetric] k30_def [symmetric] k31_def [symmetric]
      k40_def [symmetric] k41_def [symmetric]
    have q: "quadratic_form [z0 - x0, z1 - x1] Si =
        [z0 - x0, z1 - x1] ! 0 * (Si ! 0 ! 0 * [z0 - x0, z1 - x1] ! 0 + Si ! 0 ! 1 * [z0 - x0, z1 - x1] ! 1)
      + [z0 - x0, z1 - x1] ! 1 * (Si ! 1 ! 0 * [z0 - x0, z1 - x1] ! 0 + Si ! 1 ! 1 * [z0 - x0, z1 - x1] ! 1)"
      unfolding Si lidar_quadratic_form by simp
    have "UpdateLidar st m =
        Some (st\<lparr> x_vec := vec_add (x_vec st) (mat_vec (mat_mul (mat_mul (P_mat st) (transpose_mat H_laser)) Si)
                     [z0 - x0, z1 - x1]),
                   P_mat := mat_mul (mat_sub (identity_mat 5)
                       (mat_mul (mat_mul (mat_mul (P_mat st) (transpose_mat H_laser)) Si) H_laser)) (P_mat st),
                   NIS_laser := quadratic_form [z0 - x0, z1 - x1] Si \<rparr>)"
      unfolding UpdateLidar_def Let_def S y
      by (simp add: assms Some)
    also have "\<dots> = lidar_closed_form st (raw_measurements m)"
      unfolding lidar_closed_form_def Let_def S' y' K K' q Some option.case
      unfolding kd
      unfolding lidar_covariance_update [OF P refl] lidar_mean_update [OF x refl refl] ..
    finally show ?thesis .
  qed
  qed

lemma UKF_init_shape:
  "n_x UKF_init = 5" "length (x_vec UKF_init) = 5" "dims 5 5 (P_mat UKF_init)"
  "dims (2 * n_aug UKF_init + 1) 5 (Xsig_pred UKF_init)"
proof -
  show "n_x UKF_init = 5" "length (x_vec UKF_init) = 5" "dims 5 5 (P_mat UKF_init)"
    by (simp_all add: UKF_init_def dims_def)
  have "dims (2 * 7 + 1) 5 unset_Xsig_pred"
    unfolding unset_Xsig_pred_def
    by (rule someI [where x = "zero_mat (2 * 7 + 1) 5"]) (rule zero_mat_dims)
  moreover have "Xsig_pred UKF_init = unset_Xsig_pred" "n_aug UKF_init = 7"
    by (simp_all add: UKF_init_def)
  ultimately show "dims (2 * n_aug UKF_init + 1) 5 (Xsig_pred UKF_init)"
    by simp
qed

lemma lidar_closed_form_UKF_init:
  "lidar_closed_form UKF_init [2, 3] =
     Some (UKF_init
       \<lparr> x_vec := [409 / 209, 609 / 209, 9, 0, 400 / 209],
         P_mat := [[9 / 418, 0, 0, 0, 0],
                   [0, 9 / 418, 0, 0, 9 / 418],
                   [0, 0, 1 / 2, 0, 0],
                   [0, 0, 0, 1 / 2, 0],
                   [0, 9 / 418, 0, 0, 9 / 418]],
         NIS_laser := 2000 / 209 \<rparr>)"
proof -
  have S: "lidar_innovation_covariance UKF_init = [[209 / 400, 0], [0, 209 / 400]]"
    by (simp add: lidar_innovation_covariance_def UKF_init_def power2_eq_square)
  have Si: "inverse_mat [[209 / 400, 0], [0, 209 / 400]] = Some [[400 / 209, 0], [0, 400 / 209]]"
    by (simp add: inverse_mat_2)
  have x: "x_vec UKF_init = [1, 1, 9, 0, 0]" by (simp add: UKF_init_def)
  have P: "P_mat UKF_init = [[0.5, 0, 0, 0, 0], [0, 0.5, 0, 0, 0.5], [0, 0, 0.5, 0, 0],
                [0, 0, 0, 0.5, 0], [0, 0.5, 0, 0, 0.5]]"
    by (simp add: UKF_init_def)
  show ?thesis
    unfolding lidar_closed_form_def S Si option.case Let_def x P
    by (simp add: lidar_innovation_def lidar_gain_def upt5)
qed

text \<open>
  Claim C1. On a filter of state dimension 5 and for a measurement of two components,
  \<open>UpdateLidar\<close> computes exactly the closed-form correction: it fails where \<open>S\<close> is singular,
  and otherwise sets the mean to \<open>x + K y\<close>, the covariance to \<open>(I - K H) P\<close> and the lidar NIS
  to \<open>y\<^sup>T S\<^sup>-\<^sup>1 y\<close>, with \<open>y = z - H x\<close>, \<open>S = H P H\<^sup>T + R\<close> and \<open>K = P H\<^sup>T S\<^sup>-\<^sup>1\<close>, and changes no
  other field. The matrix \<open>S\<^sup>-\<^sup>1\<close> is the inverse of \<open>S\<close> on both sides.
\<close>

theorem UpdateLidar_closed_form:
  assumes "n_x st = 5" and "length (x_vec st) = 5" and "dims 5 5 (P_mat st)"
    and "length (raw_measurements m) = 2"
  shows "UpdateLidar st m = lidar_closed_form st (raw_measurements m) \<and>
         (\<forall>Si. inverse_mat (lidar_innovation_covariance st) = Some Si \<longrightarrow>
            mat_mul (lidar_innovation_covariance st) Si = identity_mat 2 \<and>
            mat_mul Si (lidar_innovation_covariance st) = identity_mat 2)"
proof -
  have inv: "\<forall>Si. inverse_mat (lidar_innovation_covariance st) = Some Si \<longrightarrow>
            mat_mul (lidar_innovation_covariance st) Si = identity_mat 2 \<and>
            mat_mul Si (lidar_innovation_covariance st) = identity_mat 2"
    unfolding lidar_innovation_covariance_def by (intro allI impI inverse_mat_2_right)
  have main: "UpdateLidar st m = lidar_closed_form st (raw_measurements m)"
    using assms by (rule UpdateLidar_eq_closed_form)
  from main inv show ?thesis by (rule conjI)
qed

text \<open>
  Scenario D of the specification on the constructor's state (prior mean \<open>(1, 1, 9, 0, 0)\<close>,
  noise \<open>0.15\<close> on both axes) and the measurement \<open>(2, 3)\<close>: the gain has the coefficient
  \<open>0.5 / 0.5225 = 200 / 209\<close> in the rows that are correlated with a position.
\<close>

theorem UpdateLidar_closed_form_witness:
  "n_x UKF_init = 5 \<and> length (x_vec UKF_init) = 5 \<and> dims 5 5 (P_mat UKF_init) \<and>
   length (raw_measurements \<lparr> timestamp = 0, sensor_type = LASER, raw_measurements = [2, 3] \<rparr>) = 2 \<and>
   UpdateLidar UKF_init \<lparr> timestamp = 0, sensor_type = LASER, raw_measurements = [2, 3] \<rparr> =
     Some (UKF_init
       \<lparr> x_vec := [409 / 209, 609 / 209, 9, 0, 400 / 209],
         P_mat := [[9 / 418, 0, 0, 0, 0],
                   [0, 9 / 418, 0, 0, 9 / 418],
                   [0, 0, 1 / 2, 0, 0],
                   [0, 0, 0, 1 / 2, 0],
                   [0, 9 / 418, 0, 0, 9 / 418]],
         NIS_laser := 2000 / 209 \<rparr>)"
proof -
  let ?m = "\<lparr> timestamp = 0, sensor_type = LASER, raw_measurements = [2, 3] \<rparr>"
  have b: "length (raw_measurements ?m) = 2" by simp
  have c: "UpdateLidar UKF_init ?m = lidar_closed_form UKF_init (raw_measurements ?m)"
    using UpdateLidar_closed_form [OF UKF_init_shape(1,2,3) b] by (rule conjunct1)
  show ?thesis
    using UKF_init_shape(1,2,3) b c by (simp add: lidar_closed_form_UKF_init)
qed

section \<open>The augmented sigma points\<close>

lemma augmented_sigma_points_nth:
  "augmented_sigma_points n l x_aug L ! 0 = x_aug"
  "i < n \<Longrightarrow> augmented_sigma_points n l x_aug L ! Suc i =
     vec_add x_aug (scal_vec (sqrt (l + real n)) (col L i))"
  "i < n \<Longrightarrow> augmented_sigma_points n l x_aug L ! Suc (n + i) =
     vec_sub x_aug (scal_vec (sqrt (l + real n)) (col L i))"
  by (simp_all add: augmented_sigma_points_def Let_def nth_append)

lemma augmented_sigma_points_length:
  "length (augmented_sigma_points n l x_aug L) = 2 * n + 1"
  by (simp add: augmented_sigma_points_def Let_def)

lemma augmented_sigma_points_dim:
  assumes "length x_aug = n" "length L = n" "i < 2 * n + 1"
  shows "length (augmented_sigma_points n l x_aug L ! i) = n"
proof (cases i)
  case 0
  then show ?thesis using assms by (simp add: augmented_sigma_points_nth)
next
  case (Suc j)
  show ?thesis
  proof (cases "j < n")
    case True
    then show ?thesis using assms Suc
      by (simp add: augmented_sigma_points_nth vec_add_length scal_vec_length col_length)
  next
    case False
    then obtain m where m: "j = n + m" "m < n" using assms Suc
      by (metis add_Suc_right le_add_diff_inverse less_Suc_eq_le mult_2 nat_add_left_cancel_less not_less Suc_eq_plus1)
    then show ?thesis using assms Suc
      by (simp add: augmented_sigma_points_nth vec_sub_length scal_vec_length col_length)
  qed
qed

lemma init_weights_nth:
  "init_weights n l ! 0 = l / (l + real n)"
  "i < 2 * n \<Longrightarrow> init_weights n l ! Suc i = 0.5 / (real n + l)"
  by (simp_all add: init_weights_eq)

lemma weighted_mean_sigma_points:
  assumes "length x_aug = n" and "length L = n" and "l + real n \<noteq> 0"
  shows "weighted_mean (init_weights n l) (augmented_sigma_points n l x_aug L) (2 * n + 1)
           (zero_vec n) = x_aug"
proof (rule nth_equalityI)
  let ?X = "augmented_sigma_points n l x_aug L"
  let ?w = "init_weights n l"
  let ?s = "sqrt (l + real n)"
  let ?c = "0.5 / (real n + l)"
  have d: "\<And>i. i < 2 * n + 1 \<Longrightarrow> length (?X ! i) = n"
    using assms by (intro augmented_sigma_points_dim) simp_all
  show len: "length (weighted_mean ?w ?X (2 * n + 1) (zero_vec n)) = length x_aug"
    using d assms by (simp add: weighted_mean_length zero_vec_def)
  fix k assume "k < length (weighted_mean ?w ?X (2 * n + 1) (zero_vec n))"
  then have k: "k < n" using len assms by simp
  have "weighted_mean ?w ?X (2 * n + 1) (zero_vec n) ! k =
          zero_vec n ! k + (\<Sum>i<2 * n + 1. ?w ! i * ?X ! i ! k)"
    using d k by (intro weighted_mean_nth) (simp_all add: zero_vec_def)
  also have "zero_vec n ! k = 0" using k by (simp add: zero_vec_def)
  also have "(\<Sum>i<2 * n + 1. ?w ! i * ?X ! i ! k) =
          ?w ! 0 * ?X ! 0 ! k + (\<Sum>i<n. ?w ! Suc i * ?X ! Suc i ! k)
            + (\<Sum>i<n. ?w ! Suc (n + i) * ?X ! Suc (n + i) ! k)"
    by (rule sum_split_pairs)
  also have "(\<Sum>i<n. ?w ! Suc i * ?X ! Suc i ! k) =
          (\<Sum>i<n. ?c * (x_aug ! k + ?s * L ! k ! i))"
    using k assms
    by (intro sum.cong refl)
       (simp add: init_weights_nth augmented_sigma_points_nth vec_add_nth scal_vec_nth
          scal_vec_length col_length col_nth)
  also have "(\<Sum>i<n. ?w ! Suc (n + i) * ?X ! Suc (n + i) ! k) =
          (\<Sum>i<n. ?c * (x_aug ! k - ?s * L ! k ! i))"
    using k assms
    by (intro sum.cong refl)
       (simp add: init_weights_nth augmented_sigma_points_nth vec_sub_nth scal_vec_nth
          scal_vec_length col_length col_nth)
  also have "?w ! 0 * ?X ! 0 ! k = l / (l + real n) * x_aug ! k"
    by (simp add: init_weights_nth augmented_sigma_points_nth)
  also have "0 + (l / (l + real n) * x_aug ! k
                + (\<Sum>i<n. ?c * (x_aug ! k + ?s * L ! k ! i))
                + (\<Sum>i<n. ?c * (x_aug ! k - ?s * L ! k ! i)))
             = (l / (l + real n) + real n / (l + real n)) * x_aug ! k"
  proof -
    have "2 * l + 2 * real n \<noteq> 0" using assms by simp
    then have c: "2 * ?c = 1 / (l + real n)"
      using assms by (simp add: field_simps)
    have "(\<Sum>i<n. ?c * (x_aug ! k + ?s * L ! k ! i)) + (\<Sum>i<n. ?c * (x_aug ! k - ?s * L ! k ! i))
            = (\<Sum>i<n. 2 * ?c * x_aug ! k)"
      unfolding sum.distrib [symmetric] by (intro sum.cong refl) (simp add: algebra_simps)
    also have "\<dots> = real n * (2 * ?c * x_aug ! k)" by simp
    also have "\<dots> = real n / (l + real n) * x_aug ! k" unfolding c by simp
    finally show ?thesis by (simp add: algebra_simps)
  qed
  also have "l / (l + real n) + real n / (l + real n) = 1"
    using assms by (simp add: add_divide_distrib [symmetric])
  finally show "weighted_mean ?w ?X (2 * n + 1) (zero_vec n) ! k = x_aug ! k"
    by simp
qed

lemma llt_column_length: "length (llt_column k x M) = length M"
  by (simp add: llt_column_def)

lemma llt_unblocked_length: "length (llt_unblocked ks M) = length M"
  by (induction ks arbitrary: M) (simp_all add: Let_def llt_column_length)

lemma llt_length: "length (llt A) = length A"
  by (simp add: llt_def matrixL_def llt_unblocked_length)

lemma augmented_mean_length: "length (augmented_mean st) = 7"
  by (simp add: augmented_mean_def)

lemma augmented_covariance_length: "length (augmented_covariance st) = 7"
  by (simp add: augmented_covariance_def)

text \<open>
  Claim C6. With the weights of the constructor (and \<open>\<lambda> + n_aug \<noteq> 0\<close>, as it is there), for every
  augmented mean and every matrix \<open>L\<close> of \<open>n_aug\<close> rows, lower triangular or not, the weighted mean
  of the \<open>2 n_aug + 1\<close> sigma points generated from them (computed by the loop that
  \<open>Prediction\<close> uses for the predicted mean) is the augmented mean itself.
\<close>

theorem sigma_point_mean_recovery:
  assumes "weights st = init_weights (n_aug st) (lambda st)"
    and "lambda st + real (n_aug st) \<noteq> 0"
    and "length x_aug = n_aug st" and "length L = n_aug st"
  shows "weighted_mean (weights st)
           (augmented_sigma_points (n_aug st) (lambda st) x_aug L) (2 * n_aug st + 1)
           (zero_vec (n_aug st)) = x_aug"
  unfolding assms(1) using assms(3,4,2) by (rule weighted_mean_sigma_points)

theorem sigma_point_mean_recovery_witness:
  "weights UKF_init = init_weights (n_aug UKF_init) (lambda UKF_init) \<and>
   lambda UKF_init + real (n_aug UKF_init) \<noteq> 0 \<and>
   length (augmented_mean UKF_init) = n_aug UKF_init \<and>
   length (llt (augmented_covariance UKF_init)) = n_aug UKF_init \<and>
   weighted_mean (weights UKF_init)
     (augmented_sigma_points (n_aug UKF_init) (lambda UKF_init) (augmented_mean UKF_init)
        (llt (augmented_covariance UKF_init)))
     (2 * n_aug UKF_init + 1) (zero_vec (n_aug UKF_init)) = augmented_mean UKF_init"
proof -
  have a: "weights UKF_init = init_weights (n_aug UKF_init) (lambda UKF_init)"
    by (simp add: UKF_init_def)
  have b: "lambda UKF_init + real (n_aug UKF_init) \<noteq> 0"
    by (simp add: UKF_init_def)
  have c: "length (augmented_mean UKF_init) = n_aug UKF_init"
    by (simp add: augmented_mean_length) (simp add: UKF_init_def)
  have d: "length (llt (augmented_covariance UKF_init)) = n_aug UKF_init"
    by (simp add: llt_length augmented_covariance_length) (simp add: UKF_init_def)
  from a b c d sigma_point_mean_recovery [OF a b c d] show ?thesis by blast
qed

section \<open>The radar update\<close>

lemma radar_model_length: "length (radar_model c) = 3"
  by (simp add: radar_model_def)

lemma radar_z_pred_length: "length (radar_z_pred st) = 3"
  by (simp add: radar_z_pred_def)

lemma radar_residual_length: "length (radar_residual z zp) = 3"
  by (simp add: radar_residual_def)

lemma radar_z_diff_length: "length (radar_z_diff st i) = 3"
  by (simp add: radar_z_diff_def radar_residual_length)

lemma radar_x_diff_length: "length (radar_x_diff st i) = 5"
  by (simp add: radar_x_diff_def)

lemma radar_residual_eq:
  assumes "length z = 3" and "length zp = 3" and "\<bar>z ! 1 - zp ! 1\<bar> \<le> exact_limit"
  shows "normalized_diff 1 z zp = Some (radar_residual z zp)"
proof -
  have "normalized_diff 1 z zp = Some ((vec_sub z zp)[1 := wrap_angle (z ! 1 - zp ! 1)])"
    using assms by (intro normalized_diff_exact) simp_all
  moreover have "(vec_sub z zp)[1 := wrap_angle (z ! 1 - zp ! 1)] = radar_residual z zp"
  proof (rule nth_equalityI)
    show "length ((vec_sub z zp)[1 := wrap_angle (z ! 1 - zp ! 1)]) = length (radar_residual z zp)"
      using assms by (simp add: vec_sub_length radar_residual_def)
    fix j assume "j < length ((vec_sub z zp)[1 := wrap_angle (z ! 1 - zp ! 1)])"
    then have "j < 3" using assms by (simp add: vec_sub_length)
    then consider "j = 0" | "j = 1" | "j = 2" by linarith
    then show "(vec_sub z zp)[1 := wrap_angle (z ! 1 - zp ! 1)] ! j = radar_residual z zp ! j"
      using assms by cases (simp_all add: vec_sub_nth vec_sub_length radar_residual_def)
  qed
  ultimately show ?thesis by simp
qed

lemma radar_x_diff_eq:
  assumes "length c = 5" and "length (x_vec st) = 5" and "c = Xsig_pred st ! i"
    and "\<bar>c ! 3 - x_vec st ! 3\<bar> \<le> exact_limit"
  shows "normalized_diff 3 c (x_vec st) = Some (radar_x_diff st i)"
proof -
  let ?x = "x_vec st"
  have "normalized_diff 3 c ?x = Some ((vec_sub c ?x)[3 := wrap_angle (c ! 3 - ?x ! 3)])"
    using assms by (intro normalized_diff_exact) simp_all
  moreover have "(vec_sub c ?x)[3 := wrap_angle (c ! 3 - ?x ! 3)] = radar_x_diff st i"
  proof (rule nth_equalityI)
    show "length ((vec_sub c ?x)[3 := wrap_angle (c ! 3 - ?x ! 3)]) = length (radar_x_diff st i)"
      using assms by (simp add: vec_sub_length radar_x_diff_def)
    fix j assume "j < length ((vec_sub c ?x)[3 := wrap_angle (c ! 3 - ?x ! 3)])"
    then have "j < 5" using assms by (simp add: vec_sub_length)
    then consider "j = 0" | "j = 1" | "j = 2" | "j = 3" | "j = 4" by linarith
    then show "(vec_sub c ?x)[3 := wrap_angle (c ! 3 - ?x ! 3)] ! j = radar_x_diff st i ! j"
      using assms by cases (simp_all add: vec_sub_nth vec_sub_length radar_x_diff_def)
  qed
  ultimately show ?thesis by simp
qed

lemma radar_z_pred_eq:
  "weighted_mean (weights st) (map (\<lambda>i. radar_model (Xsig_pred st ! i)) [0..<2 * n_aug st + 1])
     (2 * n_aug st + 1) (zero_vec 3) = radar_z_pred st"
proof (rule nth_equalityI)
  let ?n = "2 * n_aug st + 1"
  let ?Z = "map (\<lambda>i. radar_model (Xsig_pred st ! i)) [0..<?n]"
  have d: "\<And>i. i < ?n \<Longrightarrow> length (?Z ! i) = 3"
    by (simp only: map_upt_nth radar_model_length)
  have z: "length (zero_vec 3) = 3" by (simp add: zero_vec_def)
  show len: "length (weighted_mean (weights st) ?Z ?n (zero_vec 3)) = length (radar_z_pred st)"
    unfolding radar_z_pred_length using d z by (rule weighted_mean_length)
  fix k assume "k < length (weighted_mean (weights st) ?Z ?n (zero_vec 3))"
  then have k: "k < 3" using len by (simp add: radar_z_pred_length)
  have "weighted_mean (weights st) ?Z ?n (zero_vec 3) ! k =
          zero_vec 3 ! k + (\<Sum>i<?n. weights st ! i * ?Z ! i ! k)"
    using d z k by (rule weighted_mean_nth)
  also have "zero_vec 3 ! k = 0" using k by (simp add: zero_vec_def)
  also have "(\<Sum>i<?n. weights st ! i * ?Z ! i ! k) =
             (\<Sum>i<?n. weights st ! i * radar_model (Xsig_pred st ! i) ! k)"
    by (intro sum.cong refl) (simp only: map_upt_nth lessThan_iff)
  also have "0 + \<dots> = radar_z_pred st ! k"
    using k unfolding radar_z_pred_def by (simp only: map_upt_nth add_0)
  finally show "weighted_mean (weights st) ?Z ?n (zero_vec 3) ! k = radar_z_pred st ! k" .
qed

lemma list_all_map_upt: "list_all P (map f [0..<n]) \<Longrightarrow> i < n \<Longrightarrow> P (f i)"
  by (auto simp: list_all_iff)

lemma moderate_radar_angles:
  assumes "moderate (radar_angles st z)"
  shows "\<And>i. i < 2 * n_aug st + 1 \<Longrightarrow> \<bar>Xsig_pred st ! i ! 3 - x_vec st ! 3\<bar> \<le> exact_limit"
    and "\<And>i. i < 2 * n_aug st + 1 \<Longrightarrow>
           \<bar>radar_model (Xsig_pred st ! i) ! 1 - radar_z_pred st ! 1\<bar> \<le> exact_limit"
    and "\<bar>z ! 1 - radar_z_pred st ! 1\<bar> \<le> exact_limit"
proof -
  let ?n = "2 * n_aug st + 1"
  let ?P = "\<lambda>a. \<bar>a\<bar> \<le> exact_limit"
  have A: "list_all ?P (map (\<lambda>i. Xsig_pred st ! i ! 3 - x_vec st ! 3) [0..<?n])"
    and B: "list_all ?P (map (\<lambda>i. radar_model (Xsig_pred st ! i) ! 1 - radar_z_pred st ! 1)
                           [0..<?n])"
    and C: "list_all ?P [z ! 1 - radar_z_pred st ! 1]"
    using assms unfolding moderate_def radar_angles_def list_all_append by blast+
  show "\<And>i. i < ?n \<Longrightarrow> \<bar>Xsig_pred st ! i ! 3 - x_vec st ! 3\<bar> \<le> exact_limit"
    using A by (rule list_all_map_upt)
  show "\<And>i. i < ?n \<Longrightarrow>
           \<bar>radar_model (Xsig_pred st ! i) ! 1 - radar_z_pred st ! 1\<bar> \<le> exact_limit"
    using B by (rule list_all_map_upt)
  show "\<bar>z ! 1 - radar_z_pred st ! 1\<bar> \<le> exact_limit"
    using C by simp
qed

lemma radar_z_diff_eq:
  assumes "\<And>i. i < 2 * n_aug st + 1 \<Longrightarrow>
           \<bar>radar_model (Xsig_pred st ! i) ! 1 - radar_z_pred st ! 1\<bar> \<le> exact_limit"
  shows "those (map (\<lambda>i. normalized_diff 1
            (map (\<lambda>i. radar_model (Xsig_pred st ! i)) [0..<2 * n_aug st + 1] ! i)
            (radar_z_pred st)) [0..<2 * n_aug st + 1])
         = Some (map (radar_z_diff st) [0..<2 * n_aug st + 1])"
proof -
  have "map (\<lambda>i. normalized_diff 1
            (map (\<lambda>i. radar_model (Xsig_pred st ! i)) [0..<2 * n_aug st + 1] ! i)
            (radar_z_pred st)) [0..<2 * n_aug st + 1]
        = map (\<lambda>i. Some (radar_z_diff st i)) [0..<2 * n_aug st + 1]"
  proof (intro map_cong refl)
    fix i assume "i \<in> set [0..<2 * n_aug st + 1]"
    then have i: "i < 2 * n_aug st + 1" by (simp only: set_upt atLeastLessThan_iff)
    have "map (\<lambda>i. radar_model (Xsig_pred st ! i)) [0..<2 * n_aug st + 1] ! i =
          radar_model (Xsig_pred st ! i)"
      using i by (rule map_upt_nth)
    then show "normalized_diff 1
           (map (\<lambda>i. radar_model (Xsig_pred st ! i)) [0..<2 * n_aug st + 1] ! i)
           (radar_z_pred st) = Some (radar_z_diff st i)"
      unfolding radar_z_diff_def
      by (simp only: radar_residual_eq [OF radar_model_length radar_z_pred_length assms [OF i]])
  qed
  then show ?thesis by (simp only: those_map_Some)
qed

lemma radar_noise_dims: "dims 3 3 (radar_noise st)"
  by (simp add: radar_noise_def dims_def)

lemma radar_noise_eq:
  "[[std_radr st * std_radr st, 0, 0],
    [0, std_radphi st * std_radphi st, 0],
    [0, 0, std_radrd st * std_radrd st]] = radar_noise st"
  by (simp add: radar_noise_def power2_eq_square)

lemma radar_S_eq:
  "mat_add (measurement_covariance (weights st) (map (radar_z_diff st) [0..<2 * n_aug st + 1])
              (2 * n_aug st + 1) (zero_mat 3 3))
     [[std_radr st * std_radr st, 0, 0],
      [0, std_radphi st * std_radphi st, 0],
      [0, 0, std_radrd st * std_radrd st]] = radar_S st"
proof -
  let ?n = "2 * n_aug st + 1"
  let ?zd = "map (radar_z_diff st) [0..<?n]"
  let ?F = "\<lambda>i. outer (scal_vec (weights st ! i) (?zd ! i)) (?zd ! i)"
  have zd: "\<And>i. i < ?n \<Longrightarrow> ?zd ! i = radar_z_diff st i" by (rule map_upt_nth)
  have F: "\<And>i. i < ?n \<Longrightarrow> dims 3 3 (?F i)"
    by (rule outer_dims) (simp_all only: zd scal_vec_length radar_z_diff_length)
  have R: "[[std_radr st * std_radr st, 0, 0],
      [0, std_radphi st * std_radphi st, 0],
      [0, 0, std_radrd st * std_radrd st]] = radar_noise st"
    by (simp add: radar_noise_def power2_eq_square)
  have m: "measurement_covariance (weights st) ?zd ?n (zero_mat 3 3) =
           fold (\<lambda>i M. mat_add M (?F i)) [0..<?n] (zero_mat 3 3)"
    by (simp add: measurement_covariance_def)
  have dm: "dims 3 3 (fold (\<lambda>i M. mat_add M (?F i)) [0..<?n] (zero_mat 3 3))"
    using F zero_mat_dims by (rule fold_mat_add_dims)
  show ?thesis
    unfolding R m
  proof (rule mat_eqI)
    show "dims 3 3 (mat_add (fold (\<lambda>i M. mat_add M (?F i)) [0..<?n] (zero_mat 3 3)) (radar_noise st))"
      using dm radar_noise_dims by (rule mat_add_dims)
    show "dims 3 3 (radar_S st)" unfolding radar_S_def by (rule dims_map)
    fix a b :: nat assume a: "a < 3" and b: "b < 3"
    have "mat_add (fold (\<lambda>i M. mat_add M (?F i)) [0..<?n] (zero_mat 3 3)) (radar_noise st) ! a ! b
          = fold (\<lambda>i M. mat_add M (?F i)) [0..<?n] (zero_mat 3 3) ! a ! b + radar_noise st ! a ! b"
      using dm radar_noise_dims a b by (rule mat_add_nth)
    also have "fold (\<lambda>i M. mat_add M (?F i)) [0..<?n] (zero_mat 3 3) ! a ! b =
               zero_mat 3 3 ! a ! b + (\<Sum>i<?n. ?F i ! a ! b)"
      using F zero_mat_dims a b by (rule fold_mat_add_nth)
    also have "(\<Sum>i<?n. ?F i ! a ! b) =
               (\<Sum>i<?n. weights st ! i * radar_z_diff st i ! a * radar_z_diff st i ! b)"
    proof (intro sum.cong refl)
      fix i assume "i \<in> {..<?n}"
      then have i: "i < ?n" by simp
      show "?F i ! a ! b = weights st ! i * radar_z_diff st i ! a * radar_z_diff st i ! b"
        unfolding zd [OF i] using a b
        by (simp add: outer_nth scal_vec_nth scal_vec_length radar_z_diff_length)
    qed
    also have "zero_mat 3 3 ! a ! b = 0" using a b by (rule zero_mat_nth)
    finally show "mat_add (fold (\<lambda>i M. mat_add M (?F i)) [0..<?n] (zero_mat 3 3)) (radar_noise st) ! a ! b
          = radar_S st ! a ! b"
      using a b unfolding radar_S_def by (simp only: map_upt_nth add_0)
  qed
qed

lemma radar_Tc_eq:
  assumes X: "dims (2 * n_aug st + 1) 5 (Xsig_pred st)" and x: "length (x_vec st) = 5"
    and h: "\<And>i. i < 2 * n_aug st + 1 \<Longrightarrow>
              \<bar>Xsig_pred st ! i ! 3 - x_vec st ! 3\<bar> \<le> exact_limit"
  shows "cross_correlation (weights st) (Xsig_pred st) (x_vec st)
           (map (radar_z_diff st) [0..<2 * n_aug st + 1]) [0..<2 * n_aug st + 1] (zero_mat 5 3)
         = Some (radar_Tc st)"
proof -
  let ?n = "2 * n_aug st + 1"
  let ?zd = "map (radar_z_diff st) [0..<?n]"
  let ?F = "\<lambda>i. outer (scal_vec (weights st ! i) (radar_x_diff st i)) (?zd ! i)"
  have zd: "\<And>i. i < ?n \<Longrightarrow> ?zd ! i = radar_z_diff st i" by (rule map_upt_nth)
  have xd: "normalized_diff 3 (Xsig_pred st ! i) (x_vec st) = Some (radar_x_diff st i)"
    if "i \<in> set [0..<?n]" for i
  proof -
    have i: "i < ?n" using that by (simp only: set_upt atLeastLessThan_iff)
    show ?thesis using dims_nth [OF X i] x refl h [OF i] by (rule radar_x_diff_eq)
  qed
  have F: "\<And>i. i < ?n \<Longrightarrow> dims 5 3 (?F i)"
    by (rule outer_dims) (simp_all only: zd scal_vec_length radar_z_diff_length radar_x_diff_length)
  have m: "cross_correlation (weights st) (Xsig_pred st) (x_vec st) ?zd [0..<?n] (zero_mat 5 3) =
           Some (fold (\<lambda>i M. mat_add M (?F i)) [0..<?n] (zero_mat 5 3))"
    using xd by (rule cross_correlation_Some)
  have "fold (\<lambda>i M. mat_add M (?F i)) [0..<?n] (zero_mat 5 3) = radar_Tc st"
  proof (rule mat_eqI)
    show "dims 5 3 (fold (\<lambda>i M. mat_add M (?F i)) [0..<?n] (zero_mat 5 3))"
      using F zero_mat_dims by (rule fold_mat_add_dims)
    show "dims 5 3 (radar_Tc st)" unfolding radar_Tc_def by (rule dims_map)
    fix a b :: nat assume a: "a < 5" and b: "b < 3"
    have "fold (\<lambda>i M. mat_add M (?F i)) [0..<?n] (zero_mat 5 3) ! a ! b =
               zero_mat 5 3 ! a ! b + (\<Sum>i<?n. ?F i ! a ! b)"
      using F zero_mat_dims a b by (rule fold_mat_add_nth)
    also have "(\<Sum>i<?n. ?F i ! a ! b) =
               (\<Sum>i<?n. weights st ! i * radar_x_diff st i ! a * radar_z_diff st i ! b)"
    proof (intro sum.cong refl)
      fix i assume "i \<in> {..<?n}"
      then have i: "i < ?n" by simp
      show "?F i ! a ! b = weights st ! i * radar_x_diff st i ! a * radar_z_diff st i ! b"
        unfolding zd [OF i] using a b
        by (simp add: outer_nth scal_vec_nth scal_vec_length radar_z_diff_length
            radar_x_diff_length)
    qed
    also have "zero_mat 5 3 ! a ! b = 0" using a b by (rule zero_mat_nth)
    finally show "fold (\<lambda>i M. mat_add M (?F i)) [0..<?n] (zero_mat 5 3) ! a ! b
          = radar_Tc st ! a ! b"
      using a b unfolding radar_Tc_def by (simp only: map_upt_nth add_0)
  qed
  then show ?thesis unfolding m by simp
qed

lemma radar_S_dims: "dims 3 3 (radar_S st)"
  unfolding radar_S_def by (rule dims_map)

lemma radar_Tc_dims: "dims 5 3 (radar_Tc st)"
  unfolding radar_Tc_def by (rule dims_map)

lemma radar_gain_dims: "dims 5 3 (radar_gain Tc Si)"
  unfolding radar_gain_def by (rule dims_map)

lemma inverse_mat_dims_3:
  assumes "dims 3 3 M" and "inverse_mat M = Some Mi"
  shows "dims 3 3 Mi"
proof -
  have "\<not> dims 2 2 M" using assms(1) by (auto simp: dims_def)
  then show ?thesis
    using assms by (auto simp: inverse_mat_def Let_def dims_def split: if_splits)
qed

lemma radar_gain_eq:
  assumes "dims 5 3 Tc" and "dims 3 3 Si"
  shows "mat_mul Tc Si = radar_gain Tc Si"
proof (rule mat_eqI)
  have z: "(0::nat) < 3" by simp
  show "dims 5 3 (mat_mul Tc Si)" using assms z by (rule mat_mul_dims)
  show "dims 5 3 (radar_gain Tc Si)" by (rule radar_gain_dims)
  fix a b :: nat assume a: "a < 5" and b: "b < 3"
  have "mat_mul Tc Si ! a ! b = (\<Sum>c<3. Tc ! a ! c * Si ! c ! b)"
    using assms z a b by (rule mat_mul_nth)
  then show "mat_mul Tc Si ! a ! b = radar_gain Tc Si ! a ! b"
    using a b unfolding radar_gain_def by (simp only: map_upt_nth)
qed

lemma radar_mean_update:
  assumes "dims 5 3 K" and "length r = 3" and "length x = 5"
  shows "vec_add x (mat_vec K r) = map (\<lambda>a. x ! a + (\<Sum>b<3. K ! a ! b * r ! b)) [0..<5]"
proof (rule nth_equalityI)
  have l: "length (mat_vec K r) = 5" using assms by (simp add: mat_vec_length dims_length)
  show "length (vec_add x (mat_vec K r)) =
        length (map (\<lambda>a. x ! a + (\<Sum>b<3. K ! a ! b * r ! b)) [0..<5])"
    using assms l by (simp add: vec_add_length)
  fix a assume "a < length (vec_add x (mat_vec K r))"
  then have a: "a < 5" using assms l by (simp add: vec_add_length)
  have "vec_add x (mat_vec K r) ! a = x ! a + mat_vec K r ! a"
    using a l assms by (simp add: vec_add_nth)
  also have "mat_vec K r ! a = (\<Sum>b<3. K ! a ! b * r ! b)"
    using assms(1,2) a by (rule mat_vec_nth)
  finally show "vec_add x (mat_vec K r) ! a =
        map (\<lambda>a. x ! a + (\<Sum>b<3. K ! a ! b * r ! b)) [0..<5] ! a"
    using a by (simp only: map_upt_nth)
qed

lemma radar_covariance_update:
  assumes K: "dims 5 3 K" and S: "dims 3 3 S" and P: "dims 5 5 P"
  shows "mat_sub P (mat_mul (mat_mul K S) (transpose_mat K)) =
           map (\<lambda>a. map (\<lambda>b. P ! a ! b - (\<Sum>d<3. (\<Sum>c<3. K ! a ! c * S ! c ! d) * K ! b ! d))
             [0..<5]) [0..<5]"
proof (rule mat_eqI)
  have z3: "(0::nat) < 3" and z5: "(0::nat) < 5" by simp_all
  have KS: "dims 5 3 (mat_mul K S)" using K S z3 by (rule mat_mul_dims)
  have Kt: "dims 3 5 (transpose_mat K)" using K z5 by (rule transpose_mat_dims)
  have KSK: "dims 5 5 (mat_mul (mat_mul K S) (transpose_mat K))"
    using KS Kt z3 by (rule mat_mul_dims)
  show "dims 5 5 (mat_sub P (mat_mul (mat_mul K S) (transpose_mat K)))"
    using P KSK by (rule mat_sub_dims)
  show "dims 5 5 (map (\<lambda>a. map (\<lambda>b. P ! a ! b - (\<Sum>d<3. (\<Sum>c<3. K ! a ! c * S ! c ! d) * K ! b ! d))
             [0..<5]) [0..<5])"
    by (rule dims_map)
  fix a b :: nat assume a: "a < 5" and b: "b < 5"
  have "mat_sub P (mat_mul (mat_mul K S) (transpose_mat K)) ! a ! b =
        P ! a ! b - mat_mul (mat_mul K S) (transpose_mat K) ! a ! b"
    using P KSK a b by (rule mat_sub_nth)
  also have "mat_mul (mat_mul K S) (transpose_mat K) ! a ! b =
        (\<Sum>d<3. mat_mul K S ! a ! d * transpose_mat K ! d ! b)"
    using KS Kt z3 a b by (rule mat_mul_nth)
  also have "\<dots> = (\<Sum>d<3. (\<Sum>c<3. K ! a ! c * S ! c ! d) * K ! b ! d)"
  proof (intro sum.cong refl)
    fix d :: nat assume "d \<in> {..<3}"
    then have d: "d < 3" by simp
    have "mat_mul K S ! a ! d = (\<Sum>c<3. K ! a ! c * S ! c ! d)"
      using K S z3 a d by (rule mat_mul_nth)
    moreover have "transpose_mat K ! d ! b = K ! b ! d"
      using K z5 b d by (rule transpose_mat_nth)
    ultimately show "mat_mul K S ! a ! d * transpose_mat K ! d ! b =
        (\<Sum>c<3. K ! a ! c * S ! c ! d) * K ! b ! d" by simp
  qed
  finally show "mat_sub P (mat_mul (mat_mul K S) (transpose_mat K)) ! a ! b =
        map (\<lambda>a. map (\<lambda>b. P ! a ! b - (\<Sum>d<3. (\<Sum>c<3. K ! a ! c * S ! c ! d) * K ! b ! d))
             [0..<5]) [0..<5] ! a ! b"
    using a b by (simp only: map_upt_nth)
qed

lemma sum15: "(\<Sum>i<(15::nat). f i) = f 0 + f 1 + f 2 + f 3 + f 4 + f 5 + f 6 + f 7 + f 8 + f 9
   + f 10 + f 11 + f 12 + f 13 + (f 14 :: real)"
  by (simp add: eval_nat_numeral lessThan_Suc)

lemma sum3: "(\<Sum>i<(3::nat). f i) = f 0 + f 1 + (f 2 :: real)"
  by (simp add: eval_nat_numeral lessThan_Suc)

lemma upt3: "[0..<3] = [0, 1, 2]"
  by (simp add: upt_rec)

lemma inverse_mat_3:
  "inverse_mat [[a, b, c], [d, e, f], [g, h, i]] =
     (let det = a * (e * i - f * h) - b * (d * i - f * g) + c * (d * h - e * g)
      in if det = 0 then None
         else Some [[(e * i - f * h) / det, (c * h - b * i) / det, (b * f - c * e) / det],
                    [(f * g - d * i) / det, (a * i - c * g) / det, (c * d - a * f) / det],
                    [(d * h - e * g) / det, (b * g - a * h) / det, (a * e - b * d) / det]])"
  by (simp add: inverse_mat_def dims_def Let_def)

lemma inverse_mat_3_inverse:
  assumes "inverse_mat [[a, b, c], [d, e, f], [g, h, i]] = Some Mi"
  shows "mat_mul [[a, b, c], [d, e, f], [g, h, i]] Mi = identity_mat 3 \<and>
         mat_mul Mi [[a, b, c], [d, e, f], [g, h, i]] = identity_mat 3"
proof -
  define det where "det = a * (e * i - f * h) - b * (d * i - f * g) + c * (d * h - e * g)"
  have nz: "det \<noteq> 0"
    using assms unfolding inverse_mat_3 det_def [symmetric] by (auto simp: Let_def split: if_splits)
  have Mi: "Mi = [[(e * i - f * h) / det, (c * h - b * i) / det, (b * f - c * e) / det],
                    [(f * g - d * i) / det, (a * i - c * g) / det, (c * d - a * f) / det],
                    [(d * h - e * g) / det, (b * g - a * h) / det, (a * e - b * d) / det]]"
    using assms nz unfolding inverse_mat_3 det_def [symmetric] by (simp add: Let_def)
  have i3: "identity_mat 3 = [[1, 0, 0], [0, 1, 0], [0, 0, 1]]"
    by (simp add: identity_mat_def upt3)
  have "mat_mul [[a, b, c], [d, e, f], [g, h, i]] Mi = identity_mat 3"
    unfolding Mi i3
    apply (simp add: mat_mul_def ncols_def col_def dot_def upt3)
    apply (intro conjI)
    apply (simp_all add: nz field_simps)
    apply (simp_all add: det_def algebra_simps)
    done
  moreover have "mat_mul Mi [[a, b, c], [d, e, f], [g, h, i]] = identity_mat 3"
    unfolding Mi i3
    apply (simp add: mat_mul_def ncols_def col_def dot_def upt3)
    apply (intro conjI)
    apply (simp_all add: nz field_simps)
    apply (simp_all add: det_def algebra_simps)
    done
  ultimately show ?thesis by (rule conjI)
qed

lemma inverse_mat_dims_3_inverse:
  assumes "dims 3 3 M" and "inverse_mat M = Some Mi"
  shows "mat_mul M Mi = identity_mat 3 \<and> mat_mul Mi M = identity_mat 3"
proof -
  have r: "length (M ! k) = 3" if "k < 3" for k
    using assms(1) that by (rule dims_nth)
  have "M = [M ! 0, M ! 1, M ! 2]"
    using assms(1) by (intro list3) (simp add: dims_def)
  moreover have "M ! 0 = [M ! 0 ! 0, M ! 0 ! 1, M ! 0 ! 2]" by (rule list3) (simp add: r)
  moreover have "M ! 1 = [M ! 1 ! 0, M ! 1 ! 1, M ! 1 ! 2]" by (rule list3) (simp add: r)
  moreover have "M ! 2 = [M ! 2 ! 0, M ! 2 ! 1, M ! 2 ! 2]" by (rule list3) (simp add: r)
  ultimately obtain a b c d e f g h i where "M = [[a, b, c], [d, e, f], [g, h, i]]"
    by metis
  then show ?thesis using assms(2) inverse_mat_3_inverse by simp
qed

lemma UpdateRadar_unfold:
  "UpdateRadar st m =
     (case those (map (\<lambda>i. normalized_diff 1
                    (map (\<lambda>i. radar_model (Xsig_pred st ! i)) [0..<2 * n_aug st + 1] ! i)
                    (radar_z_pred st)) [0..<2 * n_aug st + 1]) of
        None \<Rightarrow> None
      | Some zd \<Rightarrow>
          (case cross_correlation (weights st) (Xsig_pred st) (x_vec st) zd
                  [0..<2 * n_aug st + 1] (zero_mat (n_x st) 3) of
             None \<Rightarrow> None
           | Some Tc \<Rightarrow>
               if length (raw_measurements m) \<noteq> 3 then None
               else
                 (case inverse_mat
                         (mat_add (measurement_covariance (weights st) zd (2 * n_aug st + 1)
                            (zero_mat 3 3)) (radar_noise st)) of
                    None \<Rightarrow> None
                  | Some Si \<Rightarrow>
                      (case normalized_diff 1 (raw_measurements m) (radar_z_pred st) of
                         None \<Rightarrow> None
                       | Some zr \<Rightarrow>
                           Some (st\<lparr> x_vec := vec_add (x_vec st) (mat_vec (mat_mul Tc Si) zr),
                                      P_mat := mat_sub (P_mat st)
                                         (mat_mul (mat_mul (mat_mul Tc Si)
                                            (mat_add (measurement_covariance (weights st) zd
                                               (2 * n_aug st + 1) (zero_mat 3 3)) (radar_noise st)))
                                            (transpose_mat (mat_mul Tc Si))),
                                      NIS_radar := quadratic_form zr Si \<rparr>)))))"
proof -
  have Z: "those (map (\<lambda>i. radar_measurement_point (Xsig_pred st ! i)) [0..<2 * n_aug st + 1]) =
           Some (map (\<lambda>i. radar_model (Xsig_pred st ! i)) [0..<2 * n_aug st + 1])"
    unfolding radar_measurement_point_Some by (rule those_map_Some)
  show ?thesis
    unfolding UpdateRadar_def Let_def Z option.case radar_z_pred_eq radar_noise_eq ..
qed

lemma UpdateRadar_eq_closed_form:
  assumes nx: "n_x st = 5" and x: "length (x_vec st) = 5" and P: "dims 5 5 (P_mat st)"
    and X: "dims (2 * n_aug st + 1) 5 (Xsig_pred st)"
    and z: "length (raw_measurements m) = 3"
    and mo: "moderate (radar_angles st (raw_measurements m))"
  shows "UpdateRadar st m = radar_closed_form st (raw_measurements m)"
proof -
  let ?n = "2 * n_aug st + 1"
  note a = moderate_radar_angles [OF mo]
  have r: "normalized_diff 1 (raw_measurements m) (radar_z_pred st) =
           Some (radar_residual (raw_measurements m) (radar_z_pred st))"
    using z radar_z_pred_length a(3) by (rule radar_residual_eq)
  have zd: "those (map (\<lambda>i. normalized_diff 1
            (map (\<lambda>i. radar_model (Xsig_pred st ! i)) [0..<?n] ! i)
            (radar_z_pred st)) [0..<?n])
         = Some (map (radar_z_diff st) [0..<?n])"
    using a(2) by (rule radar_z_diff_eq)
  have Tc: "cross_correlation (weights st) (Xsig_pred st) (x_vec st)
           (map (radar_z_diff st) [0..<?n]) [0..<?n] (zero_mat 5 3) = Some (radar_Tc st)"
    using X x a(1) by (rule radar_Tc_eq)
  have U: "UpdateRadar st m =
     (case inverse_mat (radar_S st) of
        None \<Rightarrow> None
      | Some Si \<Rightarrow>
          Some (st\<lparr> x_vec := vec_add (x_vec st) (mat_vec (mat_mul (radar_Tc st) Si)
                               (radar_residual (raw_measurements m) (radar_z_pred st))),
                     P_mat := mat_sub (P_mat st)
                                (mat_mul (mat_mul (mat_mul (radar_Tc st) Si) (radar_S st))
                                   (transpose_mat (mat_mul (radar_Tc st) Si))),
                     NIS_radar := quadratic_form
                               (radar_residual (raw_measurements m) (radar_z_pred st)) Si \<rparr>))"
    unfolding UpdateRadar_unfold
    unfolding zd option.case nx
    unfolding Tc option.case radar_S_eq [unfolded radar_noise_eq] r
    using z by simp
  show ?thesis
  proof (cases "inverse_mat (radar_S st)")
    case None
    then show ?thesis unfolding U radar_closed_form_def by simp
  next
    case (Some Si)
    have Si: "dims 3 3 Si" using radar_S_dims Some by (rule inverse_mat_dims_3)
    have K: "mat_mul (radar_Tc st) Si = radar_gain (radar_Tc st) Si"
      using radar_Tc_dims Si by (rule radar_gain_eq)
    have z3: "(0::nat) < 3" by simp
    show ?thesis
      unfolding U radar_closed_form_def Some option.case Let_def K
      unfolding radar_mean_update [OF radar_gain_dims radar_residual_length x]
        radar_covariance_update [OF radar_gain_dims radar_S_dims P]
        quadratic_form_sum [OF radar_residual_length Si z3] ..
  qed
qed


end
